theory Spec2Isabelle
  imports Main
begin

unbundle bit_operations_syntax

section \<open>The type checker of lang/check/type.go\<close>

text \<open>
  The theory embeds \<^verbatim>\<open>src/lang/check/type.go\<close>: the pass that collects the variables of
  a function (\<^verbatim>\<open>checkVars\<close>), the statement checker, the expression checker with its
  constant folding, and the checker of type expressions. The checker annotates syntax
  nodes in place (\<^verbatim>\<open>SetMType\<close>, \<^verbatim>\<open>SetConstValue\<close>) and returns a Go \<^verbatim>\<open>error\<close>;
  here a check function returns either the error or the annotation of the node it was
  called on. In the source every \<^verbatim>\<open>Set...\<close> call of a node comes after the last
  \<^verbatim>\<open>return\<close> of an error for that node, so a node whose check fails keeps no type and
  no constant value of its own: that is the \<open>Inl\<close> result.
\<close>

subsection \<open>Tokens and syntax trees\<close>

text \<open>
  The packages \<^verbatim>\<open>lang/token\<close> and \<^verbatim>\<open>lang/ast\<close> are not among the sources. A token
  \<^verbatim>\<open>t.ID\<close> is an interned number; type.go only ever asks a token which class it belongs
  to (\<^verbatim>\<open>IsNumLiteral\<close>, \<^verbatim>\<open>IsIdent\<close>, \<^verbatim>\<open>IsNumType\<close>, the arity flags) or compares it with
  a named constant, so each syntactic position gets a datatype with one constructor per
  answer that type.go distinguishes, and one more for every token it does not name.
\<close>

type_synonym ID = nat

text \<open>
  Modelled from the spec: the name of a terminal type (\<^verbatim>\<open>TypeExpr.Name\<close>). \<open>IDBool\<close> is
  \<^verbatim>\<open>t.IDBool\<close>, \<open>IDNumType\<close> a name with \<^verbatim>\<open>IsNumType()\<close>, \<open>IDIdeal\<close> the name carried by the
  Ideal-Number singleton (neither Boolean nor a concrete numeric type), \<open>IDOtherName\<close>
  any other name.
\<close>

datatype type_name = IDBool | IDIdeal | IDNumType ID | IDOtherName ID

datatype unary_op = IDXUnaryPlus | IDXUnaryMinus | IDXUnaryNot | IDXUnaryOther ID

text \<open>
  The binary operators that type.go names, \<^verbatim>\<open>t.IDXBinaryAs\<close> apart (the cast has a type
  expression as its right operand and is the node \<open>BinaryAs\<close> below); \<open>IDXBinaryOther\<close> is
  any further token with \<^verbatim>\<open>FlagsBinaryOp\<close>, which takes the \<^verbatim>\<open>default\<close> branches.
\<close>

datatype binary_op =
    IDXBinaryPlus | IDXBinaryMinus | IDXBinaryStar | IDXBinarySlash
  | IDXBinaryShiftL | IDXBinaryShiftR
  | IDXBinaryAmp | IDXBinaryAmpHat | IDXBinaryPipe | IDXBinaryHat
  | IDXBinaryNotEq | IDXBinaryLessThan | IDXBinaryLessEq | IDXBinaryEqEq
  | IDXBinaryGreaterEq | IDXBinaryGreaterThan
  | IDXBinaryAnd | IDXBinaryOr
  | IDXBinaryOther ID

text \<open>
  Expressions and type expressions. The first twelve constructors of \<open>expr\<close> are the
  nodes whose \<^verbatim>\<open>ID0\<close> has no arity flag: \<^verbatim>\<open>ID0 = 0\<close> with the \<^verbatim>\<open>ID1\<close> classes of
  \<^verbatim>\<open>checkExprOther\<close>, then the call, index, slice and selector forms and any other
  \<^verbatim>\<open>ID0\<close>. The operands of the forms that the checker refuses without looking at them
  are left out. \<open>MixedOp\<close> is an \<^verbatim>\<open>ID0\<close> with more than one arity flag.
  A type expression is a chain of decorators around a terminal name with its two
  optional bounds (\<^verbatim>\<open>InclMin\<close>, \<^verbatim>\<open>ExclMax\<close>); \<open>TypeOther\<close> is any other
  \<^verbatim>\<open>PackageOrDecorator\<close>.
\<close>

datatype expr =
    NumLiteral ID
  | Ident ID
  | IDFalse
  | IDTrue
  | IDUnderscore
  | IDThis
  | OtherID1 ID
  | IDOpenParen
  | IDOpenBracket
  | IDColon
  | IDDot
  | OtherID0 ID
  | UnaryOp unary_op expr
  | BinaryOp binary_op expr expr
  | BinaryAs expr type_expr
  | AssociativeOp ID
  | MixedOp ID
and type_expr =
    TypeName type_name "expr option" "expr option"
  | TypePtr type_expr
  | TypeArray expr type_expr
  | TypeOther ID

subsection \<open>Semantic types\<close>

text \<open>
  \<^verbatim>\<open>MType()\<close> is a pointer to a type expression. type.go compares such pointers both by
  address (\<^verbatim>\<open>lTyp == TypeExprIdealNumber\<close>, \<^verbatim>\<open>lTyp != TypeExprBoolean\<close>) and by structure
  (\<^verbatim>\<open>Eq\<close>, \<^verbatim>\<open>EqIgnoringRefinements\<close>). The two package-level singletons are therefore
  constructors of their own, and \<open>TypeNode\<close> is a node built by the parser (the declared
  type of a variable, the target of a cast), whose address is never that of a singleton.
\<close>

datatype mtype = TypeExprBoolean | TypeExprIdealNumber | TypeNode type_expr

text \<open>Modelled from the spec: what the pointer points to; both singletons are bare names.\<close>

fun node_of :: "mtype \<Rightarrow> type_expr" where
  "node_of TypeExprBoolean = TypeName IDBool None None"
| "node_of TypeExprIdealNumber = TypeName IDIdeal None None"
| "node_of (TypeNode t) = t"

text \<open>Modelled from the spec: \<^verbatim>\<open>TypeExpr.Eq\<close>, equality of the two type expressions.\<close>

definition TypeExpr_Eq :: "mtype \<Rightarrow> mtype \<Rightarrow> bool" where
  "TypeExpr_Eq n o' = (node_of n = node_of o')"

text \<open>
  Modelled from the spec: \<^verbatim>\<open>TypeExpr.EqIgnoringRefinements\<close>, "equal apart from bound
  annotations". \<open>unrefined\<close> drops the bounds of the terminal name; array lengths stay.
\<close>

fun unrefined :: "type_expr \<Rightarrow> type_expr" where
  "unrefined (TypeName name inclMin exclMax) = TypeName name None None"
| "unrefined (TypePtr inner) = TypePtr (unrefined inner)"
| "unrefined (TypeArray aLen inner) = TypeArray aLen (unrefined inner)"
| "unrefined (TypeOther d) = TypeOther d"

definition EqIgnoringRefinements :: "mtype \<Rightarrow> mtype \<Rightarrow> bool" where
  "EqIgnoringRefinements n o' = (unrefined (node_of n) = unrefined (node_of o'))"

text \<open>
  Modelled from the spec: \<^verbatim>\<open>ID.IsNumType\<close> of a name, \<^verbatim>\<open>TypeExpr.IsNumType\<close> (a bare,
  undecorated name of a concrete numeric type), and \<^verbatim>\<open>numeric\<close> of package check, which
  also admits Ideal-Number.
\<close>

fun ID_IsNumType :: "type_name \<Rightarrow> bool" where
  "ID_IsNumType (IDNumType i) = True"
| "ID_IsNumType name = False"

fun IsNumType :: "type_expr \<Rightarrow> bool" where
  "IsNumType (TypeName name inclMin exclMax) = ID_IsNumType name"
| "IsNumType t = False"

definition numeric :: "mtype \<Rightarrow> bool" where
  "numeric n = (n = TypeExprIdealNumber \<or> IsNumType (node_of n))"

subsection \<open>Errors\<close>

text \<open>
  type.go returns formatted strings. The model keeps the kind of each, under the names
  of the spec's taxonomy:
  \<^item> \<open>DuplicateDeclaration\<close>: "duplicate var";
  \<^item> \<open>UnboundIdentifier\<close>: "unrecognized identifier";
  \<^item> \<open>NotBoolean\<close>: "... does not have a boolean type";
  \<^item> \<open>NotNumeric\<close>: "... does not have (a) numeric type";
  \<^item> \<open>TypeMismatch\<close>: "cannot assign", "cannot convert expression", "do not have
    compatible types", "cannot shift an ideal number by a non-ideal number";
  \<^item> \<open>NotConstant\<close>: "... is not constant";
  \<^item> \<open>InvalidLiteral\<close>: "invalid numeric literal";
  \<^item> \<open>DivisionByZero\<close>: "division by zero in const expression";
  \<^item> \<open>ShiftOutOfRange\<close>: "shift ... out of range in const expression";
  \<^item> \<open>NotAType\<close>: "... is not a type";
  \<^item> \<open>UnsupportedConstruct\<close>: "unrecognized token.Key" of \<^verbatim>\<open>checkExprOther\<close> and of
    \<^verbatim>\<open>checkExprAssociativeOp\<close> (the forms left as TODO);
  \<^item> \<open>InternalInconsistency\<close>: "unrecognized ast.Kind", "unrecognized token.Key" of
    \<^verbatim>\<open>checkExpr\<close> and \<^verbatim>\<open>checkExprUnaryOp\<close>, "unrecognized node for checkTypeExpr";
  \<^item> \<open>NilMapWrite\<close>: the run-time panic of Go on a write to a nil map.
\<close>

datatype error =
    DuplicateDeclaration | UnboundIdentifier | NotBoolean | NotNumeric | TypeMismatch
  | NotConstant | InvalidLiteral | DivisionByZero | ShiftOutOfRange | NotAType
  | UnsupportedConstruct | InternalInconsistency | NilMapWrite

subsection \<open>The checker's state\<close>

text \<open>
  \<^verbatim>\<open>idMap.ByID\<close> gives the text of a token; \<^verbatim>\<open>typeMap\<close> is a Go map, possibly nil. The
  fields \<^verbatim>\<open>errFilename\<close> and \<^verbatim>\<open>errLine\<close> only feed diagnostics and are left out.
\<close>

type_synonym TypeMap = "ID \<rightharpoonup> type_expr"

record typeChecker =
  idMap :: "ID \<Rightarrow> string"
  typeMap :: "TypeMap option"

text \<open>The annotation of a checked expression: its \<^verbatim>\<open>MType\<close> and its \<^verbatim>\<open>ConstValue\<close>.\<close>

type_synonym annot = "mtype \<times> int option"

abbreviation MType :: "annot \<Rightarrow> mtype" where
  "MType \<equiv> fst"

abbreviation ConstValue :: "annot \<Rightarrow> int option" where
  "ConstValue \<equiv> snd"

subsection \<open>Arbitrary-precision integers\<close>

text \<open>
  \<^verbatim>\<open>*big.Int\<close> is \<open>int\<close>. The package-level values \<^verbatim>\<open>zero\<close>, \<^verbatim>\<open>one\<close>, \<^verbatim>\<open>ffff\<close> and the
  function \<^verbatim>\<open>btoi\<close> of package check are not among the sources.
\<close>

text \<open>Modelled from the spec: the bound \<open>0xFFFF\<close> of a constant shift amount.\<close>

definition ffff :: int where
  "ffff = 65535"

text \<open>Modelled from the spec: "booleans represented as 0/1".\<close>

definition btoi :: "bool \<Rightarrow> int" where
  "btoi b = (if b then 1 else 0)"

text \<open>
  \<^verbatim>\<open>(*big.Int).Div\<close> of Go's math/big, as the library computes it: the truncated quotient
  and remainder of \<^verbatim>\<open>QuoRem\<close>, then one step of adjustment when the remainder is
  negative.
\<close>

definition QuoRem :: "int \<Rightarrow> int \<Rightarrow> int \<times> int" where
  "QuoRem x y = (sgn x * sgn y * (\<bar>x\<bar> div \<bar>y\<bar>), sgn x * (\<bar>x\<bar> mod \<bar>y\<bar>))"

definition Div :: "int \<Rightarrow> int \<Rightarrow> int" where
  "Div x y = (case QuoRem x y of (q, m) \<Rightarrow>
     if m < 0 then (if y < 0 then q + 1 else q - 1) else q)"

text \<open>
  \<^verbatim>\<open>(*big.Int).SetString(s, 0)\<close> of Go's math/big, following the library's scanner: an
  optional sign, then with base 0 the prefix chooses the base (\<^verbatim>\<open>0b\<close> 2, \<^verbatim>\<open>0o\<close> or a
  leading \<^verbatim>\<open>0\<close> 8, \<^verbatim>\<open>0x\<close> 16, otherwise 10), underscores may separate digits, and the
  whole string must be consumed. \<open>digitVal\<close> is the value of a byte as a digit, 63
  (above every base) when it is none.
\<close>

definition digitVal :: "char \<Rightarrow> nat" where
  "digitVal ch = (let n = (of_char ch :: nat) in
     if 48 \<le> n \<and> n \<le> 57 then n - 48
     else if 97 \<le> n \<and> n \<le> 122 then n - 97 + 10
     else if 65 \<le> n \<and> n \<le> 90 then n - 65 + 10
     else 63)"

datatype prev = PrevOther | PrevDigit | PrevSep

text \<open>
  The digit loop of \<^verbatim>\<open>nat.scan\<close>: the state is the previous character's class, whether
  a misplaced separator was seen, the number of digits and the value so far; it stops at
  the end of the input or at the first byte that is no digit of the base, and returns
  the unread rest.
\<close>

fun scanDigits :: "nat \<Rightarrow> prev \<Rightarrow> bool \<Rightarrow> nat \<Rightarrow> nat \<Rightarrow> string
    \<Rightarrow> prev \<times> bool \<times> nat \<times> nat \<times> string" where
  "scanDigits b p invalSep count z [] = (p, invalSep, count, z, [])"
| "scanDigits b p invalSep count z (ch # rest) =
     (if ch = CHR ''_'' then scanDigits b PrevSep (invalSep \<or> p \<noteq> PrevDigit) count z rest
      else if b \<le> digitVal ch then (p, invalSep, count, z, ch # rest)
      else scanDigits b PrevDigit invalSep (count + 1) (z * b + digitVal ch) rest)"

text \<open>
  The end of \<^verbatim>\<open>nat.scan\<close>: a misplaced or trailing separator is an error; no digit at all
  is an error unless the only thing read was the octal prefix \<^verbatim>\<open>0\<close>, which is the
  number zero.
\<close>

definition scanEnd :: "bool \<Rightarrow> prev \<times> bool \<times> nat \<times> nat \<times> string \<Rightarrow> nat option \<times> string" where
  "scanEnd octalPrefix st = (case st of (p, invalSep, count, z, rest) \<Rightarrow>
     if invalSep \<or> p = PrevSep then (None, rest)
     else if count = 0 then (if octalPrefix then (Some 0, rest) else (None, rest))
     else (Some z, rest))"

definition natScan :: "string \<Rightarrow> nat option \<times> string" where
  "natScan s = (case s of
       [] \<Rightarrow> scanEnd False (PrevOther, False, 0, 0, [])
     | ch # rest \<Rightarrow>
         if ch = CHR ''0'' then
           (case rest of
              [] \<Rightarrow> scanEnd False (PrevDigit, False, 1, 0, [])
            | ch2 # rest2 \<Rightarrow>
                if ch2 = CHR ''b'' \<or> ch2 = CHR ''B'' then
                  scanEnd False (scanDigits 2 PrevDigit False 0 0 rest2)
                else if ch2 = CHR ''o'' \<or> ch2 = CHR ''O'' then
                  scanEnd False (scanDigits 8 PrevDigit False 0 0 rest2)
                else if ch2 = CHR ''x'' \<or> ch2 = CHR ''X'' then
                  scanEnd False (scanDigits 16 PrevDigit False 0 0 rest2)
                else scanEnd True (scanDigits 8 PrevDigit False 0 0 rest))
         else scanEnd False (scanDigits 10 PrevOther False 0 0 s))"

definition SetString :: "string \<Rightarrow> int option" where
  "SetString s = (case s of
       [] \<Rightarrow> None
     | ch # rest \<Rightarrow>
         (let neg = (ch = CHR ''-'');
              body = (if ch = CHR ''-'' \<or> ch = CHR ''+'' then rest else s)
          in case natScan body of
               (Some z, []) \<Rightarrow> Some (if neg then - int z else int z)
             | _ \<Rightarrow> None))"

subsection \<open>Constant folding of binary operators\<close>

text \<open>
  \<^verbatim>\<open>setConstValueBinaryOp\<close>: the error, or the constant value the node has afterwards
  (none for an operator the switch does not list). \<^verbatim>\<open>Lsh\<close> and \<^verbatim>\<open>Rsh\<close> of math/big
  multiply by a power of two and divide by it rounding down; the bitwise operations
  read a negative number in two's complement.
\<close>

fun setConstValueBinaryOp :: "binary_op \<Rightarrow> int \<Rightarrow> int \<Rightarrow> error + int option" where
  "setConstValueBinaryOp IDXBinaryPlus l r = Inr (Some (l + r))"
| "setConstValueBinaryOp IDXBinaryMinus l r = Inr (Some (l - r))"
| "setConstValueBinaryOp IDXBinaryStar l r = Inr (Some (l * r))"
| "setConstValueBinaryOp IDXBinarySlash l r =
     (if r = 0 then Inl DivisionByZero else Inr (Some (Div l r)))"
| "setConstValueBinaryOp IDXBinaryShiftL l r =
     (if r < 0 \<or> r > ffff then Inl ShiftOutOfRange else Inr (Some (l * 2 ^ nat r)))"
| "setConstValueBinaryOp IDXBinaryShiftR l r =
     (if r < 0 \<or> r > ffff then Inl ShiftOutOfRange else Inr (Some (l div 2 ^ nat r)))"
| "setConstValueBinaryOp IDXBinaryAmp l r = Inr (Some (l AND r))"
| "setConstValueBinaryOp IDXBinaryAmpHat l r = Inr (Some (l AND NOT r))"
| "setConstValueBinaryOp IDXBinaryPipe l r = Inr (Some (l OR r))"
| "setConstValueBinaryOp IDXBinaryHat l r = Inr (Some (l XOR r))"
| "setConstValueBinaryOp IDXBinaryNotEq l r = Inr (Some (btoi (l \<noteq> r)))"
| "setConstValueBinaryOp IDXBinaryLessThan l r = Inr (Some (btoi (l < r)))"
| "setConstValueBinaryOp IDXBinaryLessEq l r = Inr (Some (btoi (l \<le> r)))"
| "setConstValueBinaryOp IDXBinaryEqEq l r = Inr (Some (btoi (l = r)))"
| "setConstValueBinaryOp IDXBinaryGreaterEq l r = Inr (Some (btoi (l \<ge> r)))"
| "setConstValueBinaryOp IDXBinaryGreaterThan l r = Inr (Some (btoi (l > r)))"
| "setConstValueBinaryOp IDXBinaryAnd l r = Inr (Some (btoi (l \<noteq> 0 \<and> r \<noteq> 0)))"
| "setConstValueBinaryOp IDXBinaryOr l r = Inr (Some (btoi (l \<noteq> 0 \<or> r \<noteq> 0)))"
| "setConstValueBinaryOp (IDXBinaryOther k) l r = Inr None"

text \<open>The table \<^verbatim>\<open>comparisonOps\<close>, read at an operator's key.\<close>

fun comparisonOps :: "binary_op \<Rightarrow> bool" where
  "comparisonOps IDXBinaryNotEq = True"
| "comparisonOps IDXBinaryLessThan = True"
| "comparisonOps IDXBinaryLessEq = True"
| "comparisonOps IDXBinaryEqEq = True"
| "comparisonOps IDXBinaryGreaterEq = True"
| "comparisonOps IDXBinaryGreaterThan = True"
| "comparisonOps op = False"

subsection \<open>Expressions\<close>

text \<open>
  \<^verbatim>\<open>checkExprUnaryOp\<close> and \<^verbatim>\<open>checkExprBinaryOp\<close> after their operands have been checked:
  the arguments are the operands' annotations.
\<close>

definition checkExprUnaryOp :: "unary_op \<Rightarrow> annot \<Rightarrow> error + annot" where
  "checkExprUnaryOp op rhs = (let rTyp = MType rhs in
     if op = IDXUnaryPlus \<or> op = IDXUnaryMinus then
       if \<not> numeric rTyp then Inl NotNumeric
       else Inr (rTyp, case ConstValue rhs of
                         None \<Rightarrow> None
                       | Some cv \<Rightarrow> Some (if op = IDXUnaryMinus then - cv else cv))
     else if op = IDXUnaryNot then
       if \<not> TypeExpr_Eq rTyp TypeExprBoolean then Inl NotBoolean
       else Inr (TypeExprBoolean, case ConstValue rhs of
                                    None \<Rightarrow> None
                                  | Some cv \<Rightarrow> Some (btoi (cv = 0)))
     else Inl InternalInconsistency)"

definition checkExprBinaryOp :: "binary_op \<Rightarrow> annot \<Rightarrow> annot \<Rightarrow> error + annot" where
  "checkExprBinaryOp op lhs rhs = (let lTyp = MType lhs; rTyp = MType rhs in
     if op \<noteq> IDXBinaryNotEq \<and> op \<noteq> IDXBinaryEqEq \<and> op \<noteq> IDXBinaryAnd \<and> op \<noteq> IDXBinaryOr
        \<and> \<not> numeric lTyp then Inl NotNumeric
     else if op \<noteq> IDXBinaryNotEq \<and> op \<noteq> IDXBinaryEqEq \<and> op \<noteq> IDXBinaryAnd \<and> op \<noteq> IDXBinaryOr
        \<and> \<not> numeric rTyp then Inl NotNumeric
     else if (op = IDXBinaryAnd \<or> op = IDXBinaryOr) \<and> lTyp \<noteq> TypeExprBoolean then Inl NotBoolean
     else if (op = IDXBinaryAnd \<or> op = IDXBinaryOr) \<and> rTyp \<noteq> TypeExprBoolean then Inl NotBoolean
     else if op \<noteq> IDXBinaryShiftL \<and> op \<noteq> IDXBinaryShiftR
        \<and> \<not> EqIgnoringRefinements lTyp rTyp
        \<and> lTyp \<noteq> TypeExprIdealNumber \<and> rTyp \<noteq> TypeExprIdealNumber then Inl TypeMismatch
     else if (op = IDXBinaryShiftL \<or> op = IDXBinaryShiftR)
        \<and> lTyp = TypeExprIdealNumber \<and> rTyp \<noteq> TypeExprIdealNumber then Inl TypeMismatch
     else
       (case (case (ConstValue lhs, ConstValue rhs) of
                (Some l, Some r) \<Rightarrow> setConstValueBinaryOp op l r
              | _ \<Rightarrow> Inr None) of
          Inl err \<Rightarrow> Inl err
        | Inr cv \<Rightarrow>
            Inr (if comparisonOps op then TypeExprBoolean
                 else if lTyp \<noteq> TypeExprIdealNumber then lTyp
                 else rTyp, cv)))"

text \<open>
  The mutual recursion of \<^verbatim>\<open>checkExpr\<close> (with \<^verbatim>\<open>checkExprOther\<close> inlined at the nodes
  without operands) and \<^verbatim>\<open>checkTypeExpr\<close>; \<open>checkBound\<close> is one round of the loop over
  \<^verbatim>\<open>n.Bounds()\<close>, which skips a nil bound.
\<close>

fun checkExpr :: "typeChecker \<Rightarrow> expr \<Rightarrow> error + annot"
and checkTypeExpr :: "typeChecker \<Rightarrow> type_expr \<Rightarrow> error + unit"
and checkBound :: "typeChecker \<Rightarrow> expr option \<Rightarrow> error + unit" where
  "checkExpr c (NumLiteral id1) =
     (case SetString (idMap c id1) of
        None \<Rightarrow> Inl InvalidLiteral
      | Some z \<Rightarrow> Inr (TypeExprIdealNumber, Some z))"
| "checkExpr c (Ident id1) =
     (case typeMap c of
        None \<Rightarrow> Inl UnboundIdentifier
      | Some tm \<Rightarrow>
          (case tm id1 of
             Some typ \<Rightarrow> Inr (TypeNode typ, None)
           | None \<Rightarrow> Inl UnboundIdentifier))"
| "checkExpr c IDFalse = Inr (TypeExprBoolean, Some 0)"
| "checkExpr c IDTrue = Inr (TypeExprBoolean, Some 1)"
| "checkExpr c IDUnderscore = Inl UnsupportedConstruct"
| "checkExpr c IDThis = Inl UnsupportedConstruct"
| "checkExpr c (OtherID1 id1) = Inl UnsupportedConstruct"
| "checkExpr c IDOpenParen = Inl UnsupportedConstruct"
| "checkExpr c IDOpenBracket = Inl UnsupportedConstruct"
| "checkExpr c IDColon = Inl UnsupportedConstruct"
| "checkExpr c IDDot = Inl UnsupportedConstruct"
| "checkExpr c (OtherID0 id0) = Inl UnsupportedConstruct"
| "checkExpr c (UnaryOp op rhs) =
     (case checkExpr c rhs of
        Inl err \<Rightarrow> Inl err
      | Inr r \<Rightarrow> checkExprUnaryOp op r)"
| "checkExpr c (BinaryOp op lhs rhs) =
     (case checkExpr c lhs of
        Inl err \<Rightarrow> Inl err
      | Inr l \<Rightarrow>
          (case checkExpr c rhs of
             Inl err \<Rightarrow> Inl err
           | Inr r \<Rightarrow> checkExprBinaryOp op l r))"
| "checkExpr c (BinaryAs lhs rhs) =
     (case checkExpr c lhs of
        Inl err \<Rightarrow> Inl err
      | Inr l \<Rightarrow>
          (case checkTypeExpr c rhs of
             Inl err \<Rightarrow> Inl err
           | Inr u \<Rightarrow>
               if numeric (MType l) \<and> IsNumType rhs then Inr (TypeNode rhs, None)
               else Inl TypeMismatch))"
| "checkExpr c (AssociativeOp id0) = Inl UnsupportedConstruct"
| "checkExpr c (MixedOp id0) = Inl InternalInconsistency"
| "checkTypeExpr c (TypeName name inclMin exclMax) =
     (if ID_IsNumType name \<or> name = IDBool then
        (case checkBound c inclMin of
           Inl err \<Rightarrow> Inl err
         | Inr u \<Rightarrow> checkBound c exclMax)
      else Inl NotAType)"
| "checkTypeExpr c (TypePtr inner) = checkTypeExpr c inner"
| "checkTypeExpr c (TypeArray aLen inner) =
     (case checkExpr c aLen of
        Inl err \<Rightarrow> Inl err
      | Inr a \<Rightarrow>
          if ConstValue a = None then Inl NotConstant
          else checkTypeExpr c inner)"
| "checkTypeExpr c (TypeOther d) = Inl InternalInconsistency"
| "checkBound c None = Inr ()"
| "checkBound c (Some bound) =
     (case checkExpr c bound of
        Inl err \<Rightarrow> Inl err
      | Inr a \<Rightarrow> if ConstValue a = None then Inl NotConstant else Inr ())"

subsection \<open>Statements\<close>

text \<open>
  Statement nodes by \<^verbatim>\<open>Kind\<close>, each with what its accessors return: the condition of an
  assert; operator, \<^verbatim>\<open>LHS\<close> and \<^verbatim>\<open>RHS\<close> of an assignment; name, \<^verbatim>\<open>XType\<close> and optional
  initial value of a variable; the optional condition and the body of a while loop; an
  if with its condition, \<^verbatim>\<open>BodyIfTrue\<close>, \<^verbatim>\<open>BodyIfFalse\<close> and the optional \<^verbatim>\<open>ElseIf\<close>; the
  optional value of a return. \<open>KOther\<close> is any other kind.
\<close>

datatype assign_op = IDEq | IDShiftLEq | IDShiftREq | IDOtherAssign ID

datatype node =
    KAssert expr
  | KAssign assign_op expr expr
  | KVar ID type_expr "expr option"
  | KWhile "expr option" "node list"
  | KIf if_node
  | KReturn "expr option"
  | KBreak
  | KContinue
  | KOther nat
and if_node = IfNode expr "node list" "node list" "if_node option"

definition checkAssign :: "typeChecker \<Rightarrow> assign_op \<Rightarrow> expr \<Rightarrow> expr \<Rightarrow> error + unit" where
  "checkAssign c op lhs rhs =
     (case checkExpr c lhs of
        Inl err \<Rightarrow> Inl err
      | Inr l \<Rightarrow>
          (case checkExpr c rhs of
             Inl err \<Rightarrow> Inl err
           | Inr r \<Rightarrow>
               (let lTyp = MType l; rTyp = MType r in
                if op = IDEq then
                  if (rTyp = TypeExprIdealNumber \<and> IsNumType (node_of lTyp))
                     \<or> EqIgnoringRefinements lTyp rTyp then Inr ()
                  else Inl TypeMismatch
                else if \<not> IsNumType (node_of lTyp) then Inl NotNumeric
                else if op = IDShiftLEq \<or> op = IDShiftREq then
                  if IsNumType (node_of rTyp) then Inr () else Inl NotNumeric
                else if rTyp = TypeExprIdealNumber \<or> EqIgnoringRefinements lTyp rTyp then Inr ()
                else Inl TypeMismatch)))"

text \<open>
  \<^verbatim>\<open>checkStatement\<close>; \<open>checkStatements\<close> is a loop over a body that stops at the first
  error, \<open>checkIf\<close> the loop along the \<^verbatim>\<open>ElseIf\<close> chain (\<^verbatim>\<open>o != nil\<close>).
\<close>

fun checkStatement :: "typeChecker \<Rightarrow> node \<Rightarrow> error + unit"
and checkStatements :: "typeChecker \<Rightarrow> node list \<Rightarrow> error + unit"
and checkIf :: "typeChecker \<Rightarrow> if_node option \<Rightarrow> error + unit" where
  "checkStatement c (KAssert cond) =
     (case checkExpr c cond of
        Inl err \<Rightarrow> Inl err
      | Inr a \<Rightarrow> if \<not> TypeExpr_Eq (MType a) TypeExprBoolean then Inl NotBoolean else Inr ())"
| "checkStatement c (KAssign op lhs rhs) = checkAssign c op lhs rhs"
| "checkStatement c (KVar name xType None) = Inr ()"
| "checkStatement c (KVar name xType (Some v)) =
     (case checkExpr c v of Inl err \<Rightarrow> Inl err | Inr a \<Rightarrow> Inr ())"
| "checkStatement c (KWhile None body) = checkStatements c body"
| "checkStatement c (KWhile (Some cond) body) =
     (case checkExpr c cond of
        Inl err \<Rightarrow> Inl err
      | Inr a \<Rightarrow>
          if \<not> TypeExpr_Eq (MType a) TypeExprBoolean then Inl NotBoolean
          else checkStatements c body)"
| "checkStatement c (KIf o') = checkIf c (Some o')"
| "checkStatement c (KReturn None) = Inr ()"
| "checkStatement c (KReturn (Some v)) =
     (case checkExpr c v of Inl err \<Rightarrow> Inl err | Inr a \<Rightarrow> Inr ())"
| "checkStatement c KBreak = Inr ()"
| "checkStatement c KContinue = Inr ()"
| "checkStatement c (KOther k) = Inl InternalInconsistency"
| "checkStatements c [] = Inr ()"
| "checkStatements c (m # ms) =
     (case checkStatement c m of
        Inl err \<Rightarrow> Inl err
      | Inr u \<Rightarrow> checkStatements c ms)"
| "checkIf c None = Inr ()"
| "checkIf c (Some (IfNode cond bodyIfTrue bodyIfFalse elseIf)) =
     (case checkExpr c cond of
        Inl err \<Rightarrow> Inl err
      | Inr a \<Rightarrow>
          if \<not> TypeExpr_Eq (MType a) TypeExprBoolean then Inl NotBoolean
          else
            (case checkStatements c bodyIfTrue of
               Inl err \<Rightarrow> Inl err
             | Inr u \<Rightarrow>
                 (case checkStatements c bodyIfFalse of
                    Inl err \<Rightarrow> Inl err
                  | Inr u \<Rightarrow> checkIf c elseIf)))"

subsection \<open>Collecting the variables\<close>

text \<open>
  Modelled from the spec: \<^verbatim>\<open>Raw().SubLists()\<close> of package ast, the lists of nodes that
  hang off a node. In type.go the bodies of a while and of an if are such lists
  (\<^verbatim>\<open>range o.Body()\<close>, \<^verbatim>\<open>range o.BodyIfTrue()\<close>), while \<^verbatim>\<open>ElseIf()\<close> is a single node, not a
  list; conditions, operands and types are single nodes too.
\<close>

fun SubLists :: "node \<Rightarrow> node list list" where
  "SubLists (KWhile cond body) = [body]"
| "SubLists (KIf (IfNode cond bodyIfTrue bodyIfFalse elseIf)) = [bodyIfTrue, bodyIfFalse]"
| "SubLists n = []"

lemma size_SubLists: "size_list (size_list size) (SubLists n) \<le> size n"
proof (cases n)
  case (KIf i)
  then show ?thesis by (cases i) simp
qed simp_all

text \<open>
  \<^verbatim>\<open>checkVars\<close> threads the checker, whose \<^verbatim>\<open>typeMap\<close> it extends. A read of a nil map
  finds nothing; the write \<^verbatim>\<open>c.typeMap[name] = v.XType()\<close> to a nil map panics.
  \<open>checkVarsLists\<close> and \<open>checkVarsList\<close> are the two nested loops over the sub-lists.
\<close>

function checkVars :: "typeChecker \<Rightarrow> node \<Rightarrow> error + typeChecker"
and checkVarsLists :: "typeChecker \<Rightarrow> node list list \<Rightarrow> error + typeChecker"
and checkVarsList :: "typeChecker \<Rightarrow> node list \<Rightarrow> error + typeChecker" where
  "checkVars c n =
     (case n of
        KVar name xType v \<Rightarrow>
          if (case typeMap c of None \<Rightarrow> False | Some tm \<Rightarrow> tm name \<noteq> None)
          then Inl DuplicateDeclaration
          else
            (case checkTypeExpr c xType of
               Inl err \<Rightarrow> Inl err
             | Inr u \<Rightarrow>
                 (case typeMap c of
                    None \<Rightarrow> Inl NilMapWrite
                  | Some tm \<Rightarrow> Inr (c\<lparr>typeMap := Some (tm(name \<mapsto> xType))\<rparr>)))
      | _ \<Rightarrow> checkVarsLists c (SubLists n))"
| "checkVarsLists c [] = Inr c"
| "checkVarsLists c (l # ls) =
     (case checkVarsList c l of
        Inl err \<Rightarrow> Inl err
      | Inr c' \<Rightarrow> checkVarsLists c' ls)"
| "checkVarsList c [] = Inr c"
| "checkVarsList c (m # ms) =
     (case checkVars c m of
        Inl err \<Rightarrow> Inl err
      | Inr c' \<Rightarrow> checkVarsList c' ms)"
  by pat_completeness auto
termination
  apply (relation "measure (\<lambda>x. case x of
      Inl (c, n) \<Rightarrow> 2 * size n + 1
    | Inr (Inl (c, ls)) \<Rightarrow> 2 * size_list (size_list size) ls
    | Inr (Inr (c, l)) \<Rightarrow> 2 * size_list size l)")
  apply simp_all
  subgoal for n i using size_SubLists [of "KIf i"] by simp
  done

text \<open>
  Modelled from the spec: the driver of package check, which is not among the sources.
  "It first populates the Scope Map from variable declarations, then walks statements
  top-down": a fresh map per function, \<^verbatim>\<open>checkVars\<close> over the body, then
  \<^verbatim>\<open>checkStatement\<close> on each statement of the body.
\<close>

definition checkFuncBody :: "(ID \<Rightarrow> string) \<Rightarrow> node list \<Rightarrow> error + unit" where
  "checkFuncBody im body =
     (case checkVarsList \<lparr>idMap = im, typeMap = Some Map.empty\<rparr> body of
        Inl err \<Rightarrow> Inl err
      | Inr c \<Rightarrow> checkStatements c body)"

subsection \<open>The value of a numeral, in the spec's words\<close>

text \<open>
  The spec speaks of "the literal's mathematical value in any supported base". These
  definitions say it without the scanner: \<open>positional\<close> is the value of a digit string in
  positional notation, \<open>literalBase\<close> reads the base off the prefix and returns the digits
  that follow, a literal is \<open>wellFormed\<close> when there is at least one digit and every one
  is a digit of the base, and \<open>literalValue\<close> is then its value.
\<close>

fun positional :: "nat \<Rightarrow> string \<Rightarrow> nat" where
  "positional b [] = 0"
| "positional b (ch # rest) = digitVal ch * b ^ length rest + positional b rest"

definition literalBase :: "string \<Rightarrow> nat \<times> string" where
  "literalBase s = (case s of
       ch # ch2 # ds \<Rightarrow>
         if ch \<noteq> CHR ''0'' then (10, s)
         else if ch2 = CHR ''b'' \<or> ch2 = CHR ''B'' then (2, ds)
         else if ch2 = CHR ''o'' \<or> ch2 = CHR ''O'' then (8, ds)
         else if ch2 = CHR ''x'' \<or> ch2 = CHR ''X'' then (16, ds)
         else (8, ch2 # ds)
     | _ \<Rightarrow> (10, s))"

definition wellFormed :: "string \<Rightarrow> bool" where
  "wellFormed s = (case literalBase s of (b, ds) \<Rightarrow> ds \<noteq> [] \<and> list_all (\<lambda>ch. digitVal ch < b) ds)"

definition literalValue :: "string \<Rightarrow> int" where
  "literalValue s = (case literalBase s of (b, ds) \<Rightarrow> int (positional b ds))"

subsection \<open>What a statement and a type expression hold\<close>

text \<open>
  The conditions along the \<^verbatim>\<open>ElseIf\<close> chain of an if, and the expressions of a type
  expression that \<^verbatim>\<open>checkTypeExpr\<close> wants constant: the array lengths along the chain
  of decorators and the bounds of a terminal name that is numeric or Boolean.
\<close>

fun conditions :: "if_node \<Rightarrow> expr list" where
  "conditions (IfNode cond bodyIfTrue bodyIfFalse None) = [cond]"
| "conditions (IfNode cond bodyIfTrue bodyIfFalse (Some elseIf)) = cond # conditions elseIf"

fun constExprs :: "type_expr \<Rightarrow> expr list" where
  "constExprs (TypeName name inclMin exclMax) =
     (if ID_IsNumType name \<or> name = IDBool
      then (case inclMin of None \<Rightarrow> [] | Some b \<Rightarrow> [b]) @ (case exclMax of None \<Rightarrow> [] | Some b \<Rightarrow> [b])
      else [])"
| "constExprs (TypePtr inner) = constExprs inner"
| "constExprs (TypeArray aLen inner) = aLen # constExprs inner"
| "constExprs (TypeOther d) = []"

text \<open>
  The declarations that \<^verbatim>\<open>checkVars\<close> reaches from a node, in the order it reaches them,
  and what it means for a scope map \<open>tm'\<close> to be \<open>tm\<close> with such a list hoisted into it:
  the names are new and pairwise different, and \<open>tm'\<close> holds \<open>tm\<close> and each declaration.
\<close>

fun declarations :: "node \<Rightarrow> (ID \<times> type_expr) list" where
  "declarations (KVar name xType v) = [(name, xType)]"
| "declarations (KWhile cond body) = concat (map declarations body)"
| "declarations (KIf (IfNode cond bodyIfTrue bodyIfFalse elseIf)) =
     concat (map declarations bodyIfTrue) @ concat (map declarations bodyIfFalse)"
| "declarations n = []"

definition hoisted :: "TypeMap \<Rightarrow> (ID \<times> type_expr) list \<Rightarrow> TypeMap \<Rightarrow> bool" where
  "hoisted tm ds tm' =
     (distinct (map fst ds) \<and> fst ` set ds \<inter> dom tm = {}
      \<and> dom tm' = dom tm \<union> fst ` set ds \<and> tm \<subseteq>\<^sub>m tm'
      \<and> list_all (\<lambda>(k, t). tm' k = Some t) ds)"

subsection \<open>Where a check reaches an expression\<close>

text \<open>
  Every check function stops at the first error, so the check of a node \<open>outer\<close> looks
  at a sub-expression \<open>e\<close> only if everything it checks before \<open>e\<close> succeeds. The
  functions below say when that is so, following the order of the calls in type.go:
  \<open>reachesExpr c outer e\<close> holds when \<open>e\<close> is \<open>outer\<close> itself, or is reached in the
  operand of a unary operator, in the left operand of a binary operator or of a cast,
  or, once the left operand has checked, in the right operand or in the type of the
  cast. \<open>reachesTypeExpr\<close> follows \<^verbatim>\<open>checkTypeExpr\<close>: the bounds of a numeric or
  Boolean name in their order (the second once the first is accepted), the length of
  an array, and the inner type once the length is a checked constant.
\<close>

fun reachesExpr :: "typeChecker \<Rightarrow> expr \<Rightarrow> expr \<Rightarrow> bool"
and reachesTypeExpr :: "typeChecker \<Rightarrow> type_expr \<Rightarrow> expr \<Rightarrow> bool"
and reachesBound :: "typeChecker \<Rightarrow> expr option \<Rightarrow> expr \<Rightarrow> bool" where
  "reachesExpr c (UnaryOp op rhs) e = (e = UnaryOp op rhs \<or> reachesExpr c rhs e)"
| "reachesExpr c (BinaryOp op lhs rhs) e =
     (e = BinaryOp op lhs rhs \<or> reachesExpr c lhs e
      \<or> (\<not> isl (checkExpr c lhs) \<and> reachesExpr c rhs e))"
| "reachesExpr c (BinaryAs lhs rhs) e =
     (e = BinaryAs lhs rhs \<or> reachesExpr c lhs e
      \<or> (\<not> isl (checkExpr c lhs) \<and> reachesTypeExpr c rhs e))"
| "reachesExpr c n e = (e = n)"
| "reachesTypeExpr c (TypeName name inclMin exclMax) e =
     ((ID_IsNumType name \<or> name = IDBool)
      \<and> (reachesBound c inclMin e
           \<or> (\<not> isl (checkBound c inclMin) \<and> reachesBound c exclMax e)))"
| "reachesTypeExpr c (TypePtr inner) e = reachesTypeExpr c inner e"
| "reachesTypeExpr c (TypeArray aLen inner) e =
     (reachesExpr c aLen e
      \<or> ((case checkExpr c aLen of Inl err \<Rightarrow> False | Inr a \<Rightarrow> ConstValue a \<noteq> None)
          \<and> reachesTypeExpr c inner e))"
| "reachesTypeExpr c (TypeOther d) e = False"
| "reachesBound c None e = False"
| "reachesBound c (Some bound) e = reachesExpr c bound e"

text \<open>
  The same for \<^verbatim>\<open>checkStatement\<close>: the condition of an assert, a while or an if
  (\<open>checkStatement c (KAssert cond)\<close> succeeds exactly when the condition checks to
  Boolean), then the bodies in order, each statement once the ones before it are
  accepted, then the else-if; both sides of an assignment; the initial value of a
  variable; the value of a return.
\<close>

fun reachesStatement :: "typeChecker \<Rightarrow> node \<Rightarrow> expr \<Rightarrow> bool"
and reachesStatements :: "typeChecker \<Rightarrow> node list \<Rightarrow> expr \<Rightarrow> bool"
and reachesIf :: "typeChecker \<Rightarrow> if_node option \<Rightarrow> expr \<Rightarrow> bool" where
  "reachesStatement c (KAssert cond) e = reachesExpr c cond e"
| "reachesStatement c (KAssign op lhs rhs) e =
     (reachesExpr c lhs e \<or> (\<not> isl (checkExpr c lhs) \<and> reachesExpr c rhs e))"
| "reachesStatement c (KVar name xType None) e = False"
| "reachesStatement c (KVar name xType (Some v)) e = reachesExpr c v e"
| "reachesStatement c (KWhile None body) e = reachesStatements c body e"
| "reachesStatement c (KWhile (Some cond) body) e =
     (reachesExpr c cond e
      \<or> (\<not> isl (checkStatement c (KAssert cond)) \<and> reachesStatements c body e))"
| "reachesStatement c (KIf o') e = reachesIf c (Some o') e"
| "reachesStatement c (KReturn None) e = False"
| "reachesStatement c (KReturn (Some v)) e = reachesExpr c v e"
| "reachesStatement c KBreak e = False"
| "reachesStatement c KContinue e = False"
| "reachesStatement c (KOther k) e = False"
| "reachesStatements c [] e = False"
| "reachesStatements c (m # ms) e =
     (reachesStatement c m e \<or> (\<not> isl (checkStatement c m) \<and> reachesStatements c ms e))"
| "reachesIf c None e = False"
| "reachesIf c (Some (IfNode cond bodyIfTrue bodyIfFalse elseIf)) e =
     (reachesExpr c cond e
      \<or> (\<not> isl (checkStatement c (KAssert cond))
          \<and> (reachesStatements c bodyIfTrue e
               \<or> (\<not> isl (checkStatements c bodyIfTrue)
                   \<and> (reachesStatements c bodyIfFalse e
                        \<or> (\<not> isl (checkStatements c bodyIfFalse) \<and> reachesIf c elseIf e))))))"

text \<open>
  And for \<^verbatim>\<open>checkVars\<close>, which looks at expressions only inside the declared type of a
  variable whose name is new, with the scope map as it is when the declaration is
  visited. \<open>reachesFuncBody\<close> joins the two passes of \<open>checkFuncBody\<close>.
\<close>

function reachesVars :: "typeChecker \<Rightarrow> node \<Rightarrow> expr \<Rightarrow> bool"
and reachesVarsLists :: "typeChecker \<Rightarrow> node list list \<Rightarrow> expr \<Rightarrow> bool"
and reachesVarsList :: "typeChecker \<Rightarrow> node list \<Rightarrow> expr \<Rightarrow> bool" where
  "reachesVars c n e =
     (case n of
        KVar name xType v \<Rightarrow>
          \<not> (case typeMap c of None \<Rightarrow> False | Some tm \<Rightarrow> tm name \<noteq> None)
          \<and> reachesTypeExpr c xType e
      | _ \<Rightarrow> reachesVarsLists c (SubLists n) e)"
| "reachesVarsLists c [] e = False"
| "reachesVarsLists c (l # ls) e =
     (reachesVarsList c l e
      \<or> (case checkVarsList c l of Inl err \<Rightarrow> False | Inr c' \<Rightarrow> reachesVarsLists c' ls e))"
| "reachesVarsList c [] e = False"
| "reachesVarsList c (m # ms) e =
     (reachesVars c m e
      \<or> (case checkVars c m of Inl err \<Rightarrow> False | Inr c' \<Rightarrow> reachesVarsList c' ms e))"
  by pat_completeness auto
termination
  apply (relation "measure (\<lambda>x. case x of
      Inl (c, n, e) \<Rightarrow> 2 * size n + 1
    | Inr (Inl (c, ls, e)) \<Rightarrow> 2 * size_list (size_list size) ls
    | Inr (Inr (c, l, e)) \<Rightarrow> 2 * size_list size l)")
  apply simp_all
  subgoal for n i using size_SubLists [of "KIf i"] by simp
  done

definition reachesFuncBody :: "(ID \<Rightarrow> string) \<Rightarrow> node list \<Rightarrow> expr \<Rightarrow> bool" where
  "reachesFuncBody im body e =
     (reachesVarsList \<lparr>idMap = im, typeMap = Some Map.empty\<rparr> body e
      \<or> (case checkVarsList \<lparr>idMap = im, typeMap = Some Map.empty\<rparr> body of
            Inl err \<Rightarrow> False
          | Inr c \<Rightarrow> reachesStatements c body e))"

subsection \<open>A small scope for concrete checks\<close>

text \<open>
  Three declared types and a checker whose scope holds \<open>x : u8\<close> (token 10),
  \<open>y : u16\<close> (token 11) and \<open>b : bool\<close> (token 12); the text of a literal token is
  looked up in \<open>exampleText\<close>.
\<close>

definition u8 :: type_expr where
  "u8 = TypeName (IDNumType 8) None None"

definition u16 :: type_expr where
  "u16 = TypeName (IDNumType 16) None None"

definition bool' :: type_expr where
  "bool' = TypeName IDBool None None"

definition exampleText :: "ID \<Rightarrow> string" where
  "exampleText i =
     (if i = 0 then ''0'' else if i = 1 then ''1'' else if i = 2 then ''2''
      else if i = 3 then ''3'' else if i = 7 then ''7'' else if i = 31 then ''0x1F''
      else if i = 70000 then ''70000'' else if i = 99 then ''12a'' else ''x'')"

definition exampleChecker :: typeChecker where
  "exampleChecker = \<lparr>idMap = exampleText, typeMap = Some [10 \<mapsto> u8, 11 \<mapsto> u16, 12 \<mapsto> bool']\<rparr>"

text \<open>The division \<open>7 / 0\<close> of two literals.\<close>

definition sevenByZero :: expr where
  "sevenByZero = BinaryOp IDXBinarySlash (NumLiteral 7) (NumLiteral 0)"

section \<open>Properties\<close>

lemmas example_defs =
  exampleChecker_def exampleText_def u8_def u16_def bool'_def
  SetString_def natScan_def scanEnd_def digitVal_def

lemmas reach_defs =
  example_defs sevenByZero_def checkExprBinaryOp_def checkExprUnaryOp_def numeric_def
  TypeExpr_Eq_def EqIgnoringRefinements_def

subsection \<open>Division and the types of constants\<close>

lemma Div_remainder:
  assumes "y \<noteq> 0"
  shows "0 \<le> x - Div x y * y \<and> x - Div x y * y < \<bar>y\<bar>"
proof -
  define qd where "qd = \<bar>x\<bar> div \<bar>y\<bar>"
  define md where "md = \<bar>x\<bar> mod \<bar>y\<bar>"
  define d where "d = Div x y"
  have b: "0 < \<bar>y\<bar>" using assms by simp
  have eq: "\<bar>x\<bar> = qd * \<bar>y\<bar> + md" unfolding qd_def md_def by simp
  have m0: "0 \<le> md" and m1: "md < \<bar>y\<bar>" unfolding md_def using b by simp_all
  have D: "d = (if sgn x * md < 0 then (if y < 0 then sgn x * sgn y * qd + 1 else sgn x * sgn y * qd - 1)
                else sgn x * sgn y * qd)"
    by (simp add: d_def Div_def QuoRem_def qd_def md_def)
  consider (zero) "x = 0" | (pp) "0 < x" "0 < y" | (pn) "0 < x" "y < 0"
    | (np) "x < 0" "0 < y" | (nn) "x < 0" "y < 0"
    using assms by linarith
  then have "0 \<le> x - d * y \<and> x - d * y < \<bar>y\<bar>"
  proof cases
    case zero
    then have "qd = 0" "md = 0" by (simp_all add: qd_def md_def)
    with zero D b show ?thesis by simp
  next
    case pp
    with D m0 have "d = qd" by simp
    moreover from pp eq have "x = qd * y + md" by simp
    ultimately show ?thesis using m0 m1 pp by simp
  next
    case pn
    with D m0 have "d = - qd" by simp
    moreover from pn eq have "x = qd * (- y) + md" by simp
    ultimately show ?thesis using m0 m1 pn by simp
  next
    case np
    from np eq have x: "x = - (qd * y) - md" by simp
    show ?thesis
    proof (cases "md = 0")
      case True
      with D np have "d = - qd" by simp
      with x True np show ?thesis by simp
    next
      case False
      with D np m0 have dq: "d = - qd - 1" by simp
      have "x - d * y = y - md" unfolding x dq by (simp add: algebra_simps)
      with False m0 m1 np show ?thesis by simp
    qed
  next
    case nn
    from nn eq have x: "x = qd * y - md" by simp
    show ?thesis
    proof (cases "md = 0")
      case True
      with D nn have "d = qd" by simp
      with x True nn show ?thesis by simp
    next
      case False
      with D nn m0 have dq: "d = qd + 1" by simp
      have "x - d * y = - y - md" unfolding x dq by (simp add: algebra_simps)
      with False m0 m1 nn show ?thesis by simp
    qed
  qed
  then show ?thesis by (simp add: d_def)
qed

lemma euclid_quotient_unique:
  fixes l q q' m m' r :: int
  assumes "l = q * r + m" "0 \<le> m" "m < \<bar>r\<bar>" "l = q' * r + m'" "0 \<le> m'" "m' < \<bar>r\<bar>"
  shows "q' = q"
proof -
  have "(q - q') * r = m' - m" using assms(1,4) by (simp add: algebra_simps)
  then have "\<bar>q - q'\<bar> * \<bar>r\<bar> = \<bar>m' - m\<bar>" by (simp flip: abs_mult)
  also have "\<dots> < \<bar>r\<bar>" using assms(2,3,5,6) by linarith
  finally have "\<bar>q - q'\<bar> * \<bar>r\<bar> < 1 * \<bar>r\<bar>" by simp
  then have "\<bar>q - q'\<bar> < 1" by (simp only: mult_less_cancel_right_disj) linarith
  then show ?thesis by simp
qed

lemma checkExprBinaryOp_ideal_consts:
  assumes "op = IDXBinarySlash \<or> op = IDXBinaryShiftL \<or> op = IDXBinaryShiftR"
  shows "checkExprBinaryOp op (TypeExprIdealNumber, Some l) (TypeExprIdealNumber, Some r) =
         (case setConstValueBinaryOp op l r of
            Inl err \<Rightarrow> Inl err
          | Inr cv \<Rightarrow> Inr (TypeExprIdealNumber, cv))"
  using assms by (auto simp: checkExprBinaryOp_def numeric_def)

lemma numeric_not_Boolean: "\<not> numeric TypeExprBoolean"
  by (simp add: numeric_def)

lemma checkExprUnaryOp_const:
  assumes "checkExprUnaryOp op (rt, rc) = Inr (ty, Some v)"
  shows "rc \<noteq> None \<and> (ty = TypeExprBoolean \<or> ty = rt)"
  using assms by (auto simp: checkExprUnaryOp_def split: if_splits option.splits)

lemma setConstValueBinaryOp_type:
  assumes "checkExprBinaryOp op (lt, lc) (rt, rc) = Inr (ty, Some v)"
  shows "lc \<noteq> None \<and> rc \<noteq> None \<and> (ty = TypeExprBoolean \<or> ty = lt \<or> ty = rt)"
  using assms by (auto simp: checkExprBinaryOp_def Let_def split: if_splits option.splits sum.splits)

lemma const_type_aux:
  "(\<forall>ty v. checkExpr c e = Inr (ty, Some v) \<longrightarrow> ty = TypeExprBoolean \<or> ty = TypeExprIdealNumber)"
  "checkTypeExpr c t = checkTypeExpr c t"
  "checkBound c b = checkBound c b"
proof (induction c e and c t and c b rule: checkExpr_checkTypeExpr_checkBound.induct)
  case (13 c op rhs)
  show ?case
  proof (intro allI impI)
    fix ty v assume a: "checkExpr c (UnaryOp op rhs) = Inr (ty, Some v)"
    then obtain rt rc where r: "checkExpr c rhs = Inr (rt, rc)" and u: "checkExprUnaryOp op (rt, rc) = Inr (ty, Some v)"
      by (auto split: sum.splits)
    from checkExprUnaryOp_const [OF u] 13 r show "ty = TypeExprBoolean \<or> ty = TypeExprIdealNumber"
      by auto
  qed
next
  case (14 c op lhs rhs)
  show ?case
  proof (intro allI impI)
    fix ty v assume a: "checkExpr c (BinaryOp op lhs rhs) = Inr (ty, Some v)"
    then obtain lt lc rt rc where l: "checkExpr c lhs = Inr (lt, lc)" and r: "checkExpr c rhs = Inr (rt, rc)"
      and u: "checkExprBinaryOp op (lt, lc) (rt, rc) = Inr (ty, Some v)"
      by (auto split: sum.splits)
    from setConstValueBinaryOp_type [OF u] 14 l r show "ty = TypeExprBoolean \<or> ty = TypeExprIdealNumber"
      by auto
  qed
qed (auto split: option.splits sum.splits if_splits)

lemma const_numeric_is_ideal:
  assumes "checkExpr c e = Inr (ty, Some v)" "numeric ty"
  shows "ty = TypeExprIdealNumber"
  using const_type_aux(1) [of c e] assms numeric_not_Boolean by auto

text \<open>
  Claim C10. Folding a division of constants attaches the Euclidean quotient: when both
  operands check as numeric constants \<open>l\<close> and \<open>r\<close> with \<open>r\<close> not zero, the node gets
  type Ideal-Number and a constant \<open>q\<close> with \<open>l = q * r + m\<close> for some \<open>0 \<le> m < \<bar>r\<bar>\<close>, and
  \<open>q\<close> is the only integer with such a remainder.
\<close>

theorem division_folds_euclidean:
  assumes "checkExpr c lhs = Inr (lt, Some l)" and "checkExpr c rhs = Inr (rt, Some r)"
    and "numeric lt" and "numeric rt" and "r \<noteq> 0"
  shows "\<exists>q m. checkExpr c (BinaryOp IDXBinarySlash lhs rhs) = Inr (TypeExprIdealNumber, Some q)
           \<and> l = q * r + m \<and> 0 \<le> m \<and> m < \<bar>r\<bar>
           \<and> (\<forall>q' m'. l = q' * r + m' \<and> 0 \<le> m' \<and> m' < \<bar>r\<bar> \<longrightarrow> q' = q)"
proof -
  have lt: "lt = TypeExprIdealNumber" and rt: "rt = TypeExprIdealNumber"
    using assms(1-4) by (auto dest: const_numeric_is_ideal)
  define q where "q = Div l r"
  define m where "m = l - q * r"
  have "checkExpr c (BinaryOp IDXBinarySlash lhs rhs) = Inr (TypeExprIdealNumber, Some q)"
    using assms(1,2,5) by (simp add: lt rt checkExprBinaryOp_ideal_consts q_def)
  moreover have "l = q * r + m" by (simp add: m_def)
  moreover have "0 \<le> m \<and> m < \<bar>r\<bar>"
    using Div_remainder [OF assms(5), of l] by (simp add: m_def q_def)
  moreover have "\<forall>q' m'. l = q' * r + m' \<and> 0 \<le> m' \<and> m' < \<bar>r\<bar> \<longrightarrow> q' = q"
    using euclid_quotient_unique [of l q r m] calculation(2,3) by blast
  ultimately show ?thesis by blast
qed

theorem division_folds_euclidean_witness:
  "checkExpr exampleChecker (UnaryOp IDXUnaryMinus (NumLiteral 7)) = Inr (TypeExprIdealNumber, Some (- 7))
   \<and> checkExpr exampleChecker (NumLiteral 2) = Inr (TypeExprIdealNumber, Some 2)
   \<and> numeric TypeExprIdealNumber \<and> (2::int) \<noteq> 0
   \<and> checkExpr exampleChecker (BinaryOp IDXBinarySlash (UnaryOp IDXUnaryMinus (NumLiteral 7)) (NumLiteral 2))
       = Inr (TypeExprIdealNumber, Some (- 4))
   \<and> checkExpr exampleChecker (BinaryOp IDXBinarySlash (NumLiteral 7) (UnaryOp IDXUnaryMinus (NumLiteral 2)))
       = Inr (TypeExprIdealNumber, Some (- 3))"
proof -
  have e: "checkExpr exampleChecker (BinaryOp IDXBinarySlash (NumLiteral 7) (UnaryOp IDXUnaryMinus (NumLiteral 2)))
       = Inr (TypeExprIdealNumber, Some (- 3))"
    by (simp add: example_defs checkExprUnaryOp_def checkExprBinaryOp_def numeric_def Div_def QuoRem_def)
  have n: "numeric TypeExprIdealNumber" by (simp add: numeric_def)
  have l: "checkExpr exampleChecker (UnaryOp IDXUnaryMinus (NumLiteral 7)) = Inr (TypeExprIdealNumber, Some (- 7))"
    by (simp add: example_defs checkExprUnaryOp_def numeric_def)
  have r: "checkExpr exampleChecker (NumLiteral 2) = Inr (TypeExprIdealNumber, Some 2)"
    by (simp add: example_defs)
  obtain q where q: "checkExpr exampleChecker (BinaryOp IDXBinarySlash (UnaryOp IDXUnaryMinus (NumLiteral 7)) (NumLiteral 2))
        = Inr (TypeExprIdealNumber, Some q)"
    and u: "\<forall>q' m'. (- 7::int) = q' * 2 + m' \<and> 0 \<le> m' \<and> m' < \<bar>2\<bar> \<longrightarrow> q' = q"
    using division_folds_euclidean [OF l r n n] by auto
  have "(- 7::int) = (- 4) * 2 + 1 \<and> (0::int) \<le> 1 \<and> (1::int) < \<bar>2\<bar>" by simp
  with u have "- 4 = q" by blast
  with q l r n e show ?thesis by simp
qed

text \<open>
  Claim C3. A shift of two numeric constants whose amount lies outside \<open>[0, 65535]\<close>
  fails with \<open>ShiftOutOfRange\<close>; within the range the shift is folded: \<open><<\<close> multiplies
  by the power of two, \<open>>>\<close> divides by it rounding down, and the node is Ideal-Number.
\<close>

theorem constant_shift_range:
  assumes "checkExpr c lhs = Inr (lt, Some l)" and "checkExpr c rhs = Inr (rt, Some r)"
    and "numeric lt" and "numeric rt"
  shows "checkExpr c (BinaryOp IDXBinaryShiftL lhs rhs) =
           (if r < 0 \<or> 65535 < r then Inl ShiftOutOfRange
            else Inr (TypeExprIdealNumber, Some (l * 2 ^ nat r)))
       \<and> checkExpr c (BinaryOp IDXBinaryShiftR lhs rhs) =
           (if r < 0 \<or> 65535 < r then Inl ShiftOutOfRange
            else Inr (TypeExprIdealNumber, Some (l div 2 ^ nat r)))"
proof -
  have lt: "lt = TypeExprIdealNumber" and rt: "rt = TypeExprIdealNumber"
    using assms by (auto dest: const_numeric_is_ideal)
  show ?thesis
    using assms(1,2) by (simp add: lt rt checkExprBinaryOp_ideal_consts ffff_def)
qed

theorem constant_shift_range_witness:
  "checkExpr exampleChecker (NumLiteral 1) = Inr (TypeExprIdealNumber, Some 1)
   \<and> checkExpr exampleChecker (NumLiteral 70000) = Inr (TypeExprIdealNumber, Some 70000)
   \<and> checkExpr exampleChecker (NumLiteral 3) = Inr (TypeExprIdealNumber, Some 3)
   \<and> numeric TypeExprIdealNumber
   \<and> checkExpr exampleChecker (BinaryOp IDXBinaryShiftL (NumLiteral 1) (NumLiteral 70000)) = Inl ShiftOutOfRange
   \<and> checkExpr exampleChecker (BinaryOp IDXBinaryShiftR (NumLiteral 1) (NumLiteral 70000)) = Inl ShiftOutOfRange
   \<and> checkExpr exampleChecker (BinaryOp IDXBinaryShiftL (NumLiteral 1) (NumLiteral 3)) = Inr (TypeExprIdealNumber, Some 8)
   \<and> checkExpr exampleChecker (BinaryOp IDXBinaryShiftR (NumLiteral 70000) (NumLiteral 3)) = Inr (TypeExprIdealNumber, Some 8750)"
proof -
  have n: "numeric TypeExprIdealNumber" by (simp add: numeric_def)
  have l: "checkExpr exampleChecker (NumLiteral 1) = Inr (TypeExprIdealNumber, Some 1)"
    by (simp add: example_defs)
  have r: "checkExpr exampleChecker (NumLiteral 70000) = Inr (TypeExprIdealNumber, Some 70000)"
    by (simp add: example_defs)
  have k: "checkExpr exampleChecker (NumLiteral 3) = Inr (TypeExprIdealNumber, Some 3)"
    by (simp add: example_defs)
  from constant_shift_range [OF l r n n] constant_shift_range [OF l k n n]
    constant_shift_range [OF r k n n] l r k n
  show ?thesis by simp
qed

subsection \<open>Binary operators\<close>

lemma checkExpr_BinaryOp_Inr:
  assumes "checkExpr c (BinaryOp op lhs rhs) = Inr a"
  obtains l r where "checkExpr c lhs = Inr l" and "checkExpr c rhs = Inr r"
    and "checkExprBinaryOp op l r = Inr a"
  using assms by (auto split: sum.splits)

lemma checkExprBinaryOp_gate:
  assumes "checkExprBinaryOp op l r = Inr a"
  shows "if op = IDXBinaryShiftL \<or> op = IDXBinaryShiftR
         then \<not> (MType l = TypeExprIdealNumber \<and> MType r \<noteq> TypeExprIdealNumber)
         else EqIgnoringRefinements (MType l) (MType r)
              \<or> MType l = TypeExprIdealNumber \<or> MType r = TypeExprIdealNumber"
proof -
  from assms have
    "\<not> (op \<noteq> IDXBinaryShiftL \<and> op \<noteq> IDXBinaryShiftR
        \<and> \<not> EqIgnoringRefinements (MType l) (MType r)
        \<and> MType l \<noteq> TypeExprIdealNumber \<and> MType r \<noteq> TypeExprIdealNumber)
     \<and> \<not> ((op = IDXBinaryShiftL \<or> op = IDXBinaryShiftR)
        \<and> MType l = TypeExprIdealNumber \<and> MType r \<noteq> TypeExprIdealNumber)"
    unfolding checkExprBinaryOp_def Let_def
    by (simp split: if_splits)
  then show ?thesis by (simp split: if_splits) blast
qed

lemma checkExprBinaryOp_shift_ideal:
  assumes "op = IDXBinaryShiftL \<or> op = IDXBinaryShiftR"
    and "MType l = TypeExprIdealNumber" and "MType r \<noteq> TypeExprIdealNumber"
  shows "checkExprBinaryOp op l r = Inl (if numeric (MType r) then TypeMismatch else NotNumeric)"
  using assms unfolding checkExprBinaryOp_def Let_def
  by (auto simp: numeric_def)

lemma checkExprBinaryOp_type:
  assumes "checkExprBinaryOp op l r = Inr a"
  shows "MType a = (if comparisonOps op then TypeExprBoolean
                    else if MType l \<noteq> TypeExprIdealNumber then MType l else MType r)"
  using assms unfolding checkExprBinaryOp_def Let_def
  by (clarsimp split: if_splits sum.splits)

lemma comparisonOps_iff:
  "comparisonOps op \<longleftrightarrow> op \<in> {IDXBinaryNotEq, IDXBinaryLessThan, IDXBinaryLessEq,
     IDXBinaryEqEq, IDXBinaryGreaterEq, IDXBinaryGreaterThan}"
  by (cases op) simp_all

text \<open>
  Claim C2, as amended. A binary operator other than the cast and the two shifts is
  accepted only if its operand types are equal ignoring refinements or one of them is
  Ideal-Number. The shifts \<open><<\<close> and \<open>>>\<close> are not held to that: they are accepted
  only if the left operand is not Ideal-Number or the right one is, and an Ideal-Number
  left operand with another right operand is rejected (as a type mismatch when the
  right operand is numeric, as not numeric otherwise).
\<close>

theorem binary_operand_compatibility:
  "(checkExpr c (BinaryOp op lhs rhs) = Inr a \<longrightarrow>
      (\<exists>l r. checkExpr c lhs = Inr l \<and> checkExpr c rhs = Inr r
         \<and> (if op = IDXBinaryShiftL \<or> op = IDXBinaryShiftR
            then \<not> (MType l = TypeExprIdealNumber \<and> MType r \<noteq> TypeExprIdealNumber)
            else EqIgnoringRefinements (MType l) (MType r)
                 \<or> MType l = TypeExprIdealNumber \<or> MType r = TypeExprIdealNumber)))
   \<and> (checkExpr c lhs = Inr l' \<and> checkExpr c rhs = Inr r'
        \<and> (op = IDXBinaryShiftL \<or> op = IDXBinaryShiftR)
        \<and> MType l' = TypeExprIdealNumber \<and> MType r' \<noteq> TypeExprIdealNumber \<longrightarrow>
      checkExpr c (BinaryOp op lhs rhs)
        = Inl (if numeric (MType r') then TypeMismatch else NotNumeric))"
proof (intro conjI impI)
  assume "checkExpr c (BinaryOp op lhs rhs) = Inr a"
  then obtain l r where "checkExpr c lhs = Inr l" "checkExpr c rhs = Inr r"
    and "checkExprBinaryOp op l r = Inr a"
    by (rule checkExpr_BinaryOp_Inr)
  then show "\<exists>l r. checkExpr c lhs = Inr l \<and> checkExpr c rhs = Inr r
         \<and> (if op = IDXBinaryShiftL \<or> op = IDXBinaryShiftR
            then \<not> (MType l = TypeExprIdealNumber \<and> MType r \<noteq> TypeExprIdealNumber)
            else EqIgnoringRefinements (MType l) (MType r)
                 \<or> MType l = TypeExprIdealNumber \<or> MType r = TypeExprIdealNumber)"
    using checkExprBinaryOp_gate [of op l r a] by blast
next
  assume "checkExpr c lhs = Inr l' \<and> checkExpr c rhs = Inr r'
        \<and> (op = IDXBinaryShiftL \<or> op = IDXBinaryShiftR)
        \<and> MType l' = TypeExprIdealNumber \<and> MType r' \<noteq> TypeExprIdealNumber"
  then show "checkExpr c (BinaryOp op lhs rhs)
        = Inl (if numeric (MType r') then TypeMismatch else NotNumeric)"
    using checkExprBinaryOp_shift_ideal [of op l' r'] by simp
qed

theorem binary_operand_compatibility_witness:
  "checkExpr exampleChecker (BinaryOp IDXBinaryPlus (Ident 10) (NumLiteral 1)) = Inr (TypeNode u8, None)
   \<and> (\<exists>l r. checkExpr exampleChecker (Ident 10) = Inr l \<and> checkExpr exampleChecker (NumLiteral 1) = Inr r
        \<and> (EqIgnoringRefinements (MType l) (MType r)
            \<or> MType l = TypeExprIdealNumber \<or> MType r = TypeExprIdealNumber))
   \<and> checkExpr exampleChecker (NumLiteral 1) = Inr (TypeExprIdealNumber, Some 1)
   \<and> checkExpr exampleChecker (Ident 11) = Inr (TypeNode u16, None)
   \<and> checkExpr exampleChecker (BinaryOp IDXBinaryShiftL (NumLiteral 1) (Ident 11)) = Inl TypeMismatch"
proof -
  have s: "checkExpr exampleChecker (BinaryOp IDXBinaryPlus (Ident 10) (NumLiteral 1)) = Inr (TypeNode u8, None)"
    by (simp add: example_defs checkExprBinaryOp_def numeric_def)
  have l: "checkExpr exampleChecker (NumLiteral 1) = Inr (TypeExprIdealNumber, Some 1)"
    by (simp add: example_defs)
  have r: "checkExpr exampleChecker (Ident 11) = Inr (TypeNode u16, None)"
    by (simp add: example_defs)
  have A: "\<exists>l r. checkExpr exampleChecker (Ident 10) = Inr l \<and> checkExpr exampleChecker (NumLiteral 1) = Inr r
        \<and> (EqIgnoringRefinements (MType l) (MType r)
            \<or> MType l = TypeExprIdealNumber \<or> MType r = TypeExprIdealNumber)"
    using binary_operand_compatibility
      [of exampleChecker IDXBinaryPlus "Ident 10" "NumLiteral 1" "(TypeNode u8, None)"] s
    by simp
  have B: "checkExpr exampleChecker (BinaryOp IDXBinaryShiftL (NumLiteral 1) (Ident 11)) = Inl TypeMismatch"
    using binary_operand_compatibility
      [of exampleChecker IDXBinaryShiftL "NumLiteral 1" "Ident 11" _
          "(TypeExprIdealNumber, Some 1)" "(TypeNode u16, None)"] l r
    by (simp add: numeric_def u16_def)
  from s A l r B show ?thesis by blast
qed

theorem binary_operand_compatibility_counterexample:
  "checkExpr exampleChecker (Ident 10) = Inr (TypeNode u8, None)
   \<and> checkExpr exampleChecker (Ident 11) = Inr (TypeNode u16, None)
   \<and> \<not> EqIgnoringRefinements (TypeNode u8) (TypeNode u16)
   \<and> TypeNode u8 \<noteq> TypeExprIdealNumber \<and> TypeNode u16 \<noteq> TypeExprIdealNumber
   \<and> checkExpr exampleChecker (BinaryOp IDXBinaryShiftL (Ident 10) (Ident 11)) = Inr (TypeNode u8, None)"
  by (simp add: example_defs checkExprBinaryOp_def numeric_def EqIgnoringRefinements_def)

text \<open>
  Claim C5. The type annotated on a successfully checked binary expression is Boolean
  for the six comparison operators; for any other operator it is the left operand's
  type unless that is Ideal-Number, else the right operand's type unless that is
  Ideal-Number too, else Ideal-Number. For the cast, whose right operand is a type, it
  is that type, which is never Ideal-Number.
\<close>

theorem binary_result_type:
  "(checkExpr c (BinaryOp op lhs rhs) = Inr a \<longrightarrow>
      (\<exists>l r. checkExpr c lhs = Inr l \<and> checkExpr c rhs = Inr r
         \<and> MType a =
             (if op \<in> {IDXBinaryNotEq, IDXBinaryLessThan, IDXBinaryLessEq,
                        IDXBinaryEqEq, IDXBinaryGreaterEq, IDXBinaryGreaterThan}
              then TypeExprBoolean
              else if MType l \<noteq> TypeExprIdealNumber then MType l
              else if MType r \<noteq> TypeExprIdealNumber then MType r
              else TypeExprIdealNumber)))
   \<and> (checkExpr c (BinaryAs lhs target) = Inr a' \<longrightarrow>
        MType a' = TypeNode target \<and> TypeNode target \<noteq> TypeExprIdealNumber)"
proof (intro conjI impI)
  assume "checkExpr c (BinaryOp op lhs rhs) = Inr a"
  then obtain l r where l: "checkExpr c lhs = Inr l" and r: "checkExpr c rhs = Inr r"
    and b: "checkExprBinaryOp op l r = Inr a"
    by (rule checkExpr_BinaryOp_Inr)
  from checkExprBinaryOp_type [OF b] have "MType a =
         (if op \<in> {IDXBinaryNotEq, IDXBinaryLessThan, IDXBinaryLessEq,
                    IDXBinaryEqEq, IDXBinaryGreaterEq, IDXBinaryGreaterThan}
          then TypeExprBoolean
          else if MType l \<noteq> TypeExprIdealNumber then MType l
          else if MType r \<noteq> TypeExprIdealNumber then MType r
          else TypeExprIdealNumber)"
    unfolding comparisonOps_iff by (simp split: if_splits)
  with l r show "\<exists>l r. checkExpr c lhs = Inr l \<and> checkExpr c rhs = Inr r
         \<and> MType a =
             (if op \<in> {IDXBinaryNotEq, IDXBinaryLessThan, IDXBinaryLessEq,
                        IDXBinaryEqEq, IDXBinaryGreaterEq, IDXBinaryGreaterThan}
              then TypeExprBoolean
              else if MType l \<noteq> TypeExprIdealNumber then MType l
              else if MType r \<noteq> TypeExprIdealNumber then MType r
              else TypeExprIdealNumber)"
    by blast
next
  assume "checkExpr c (BinaryAs lhs target) = Inr a'"
  then show "MType a' = TypeNode target" by (auto split: sum.splits if_splits)
qed simp

theorem binary_result_type_witness:
  "checkExpr exampleChecker (BinaryOp IDXBinaryPlus (NumLiteral 1) (Ident 10)) = Inr (TypeNode u8, None)
   \<and> (\<exists>l r. checkExpr exampleChecker (NumLiteral 1) = Inr l \<and> checkExpr exampleChecker (Ident 10) = Inr r
        \<and> MType l = TypeExprIdealNumber \<and> MType r = TypeNode u8)
   \<and> checkExpr exampleChecker (BinaryOp IDXBinaryLessThan (NumLiteral 1) (Ident 10)) = Inr (TypeExprBoolean, None)
   \<and> checkExpr exampleChecker (BinaryOp IDXBinaryPlus (NumLiteral 1) (NumLiteral 2)) = Inr (TypeExprIdealNumber, Some 3)
   \<and> checkExpr exampleChecker (BinaryAs (Ident 10) u16) = Inr (TypeNode u16, None)"
proof -
  have s: "checkExpr exampleChecker (BinaryOp IDXBinaryPlus (NumLiteral 1) (Ident 10)) = Inr (TypeNode u8, None)"
    by (simp add: example_defs checkExprBinaryOp_def numeric_def)
  have l: "checkExpr exampleChecker (NumLiteral 1) = Inr (TypeExprIdealNumber, Some 1)"
    by (simp add: example_defs)
  have r: "checkExpr exampleChecker (Ident 10) = Inr (TypeNode u8, None)"
    by (simp add: example_defs)
  have "\<exists>l r. checkExpr exampleChecker (NumLiteral 1) = Inr l \<and> checkExpr exampleChecker (Ident 10) = Inr r
        \<and> MType l = TypeExprIdealNumber \<and> MType r = TypeNode u8"
    using binary_result_type
      [of exampleChecker IDXBinaryPlus "NumLiteral 1" "Ident 10" "(TypeNode u8, None)"] s l r
    by simp
  moreover have "checkExpr exampleChecker (BinaryOp IDXBinaryLessThan (NumLiteral 1) (Ident 10)) = Inr (TypeExprBoolean, None)"
    by (simp add: example_defs checkExprBinaryOp_def numeric_def)
  moreover have "checkExpr exampleChecker (BinaryOp IDXBinaryPlus (NumLiteral 1) (NumLiteral 2)) = Inr (TypeExprIdealNumber, Some 3)"
    by (simp add: example_defs checkExprBinaryOp_def numeric_def)
  moreover have "checkExpr exampleChecker (BinaryAs (Ident 10) u16) = Inr (TypeNode u16, None)"
    by (simp add: example_defs numeric_def)
  ultimately show ?thesis using s by blast
qed

subsection \<open>Numeric literals\<close>

lemma digitVal_special:
  "digitVal CHR ''_'' = 63" "digitVal CHR ''-'' = 63" "digitVal CHR ''+'' = 63"
  "digitVal CHR ''0'' = 0"
  "digitVal CHR ''b'' = 11" "digitVal CHR ''B'' = 11"
  "digitVal CHR ''o'' = 24" "digitVal CHR ''O'' = 24"
  "digitVal CHR ''x'' = 33" "digitVal CHR ''X'' = 33"
  by (simp_all add: digitVal_def)

lemma scanDigits_digits:
  assumes "\<forall>ch \<in> set ds. digitVal ch < b" and "b \<le> 36"
  shows "scanDigits b p invalSep count z ds =
         (if ds = [] then p else PrevDigit, invalSep, count + length ds,
          z * b ^ length ds + positional b ds, [])"
  using assms
proof (induction ds arbitrary: p count z)
  case Nil
  show ?case by simp
next
  case (Cons ch rest)
  from Cons.prems have d: "digitVal ch < b" and u: "ch \<noteq> CHR ''_''"
    using digitVal_special(1) by auto
  from Cons.prems have "\<forall>ch \<in> set rest. digitVal ch < b" by simp
  from Cons.IH [OF this Cons.prems(2)] d u show ?case
    by (simp add: algebra_simps)
qed

lemma natScan_prefixed:
  assumes "\<forall>ch \<in> set ds. digitVal ch < b" and "b \<le> 36" and "ds \<noteq> []"
  shows "scanEnd False (scanDigits b PrevDigit False 0 0 ds) = (Some (positional b ds), [])"
  using assms by (simp add: scanDigits_digits scanEnd_def)

lemma SetString_decimal:
  assumes "ds \<noteq> []" and "\<forall>ch \<in> set ds. digitVal ch < 10" and "hd ds \<noteq> CHR ''0''"
  shows "SetString ds = Some (int (positional 10 ds))"
proof -
  from assms obtain ch rest where ds: "ds = ch # rest" by (cases ds) auto
  with assms have ch: "ch \<noteq> CHR ''0''" "ch \<noteq> CHR ''-''" "ch \<noteq> CHR ''+''"
    using digitVal_special(2,3) by auto
  have "natScan ds = (Some (positional 10 ds), [])"
    using assms(1,2) ch unfolding natScan_def ds
    by (simp add: scanDigits_digits [where b=10] scanEnd_def del: scanDigits.simps positional.simps)
  with ch show ?thesis by (simp add: SetString_def ds)
qed

lemma SetString_hex:
  assumes "ds \<noteq> []" and "\<forall>ch \<in> set ds. digitVal ch < 16"
  shows "SetString (CHR ''0'' # CHR ''x'' # ds) = Some (int (positional 16 ds))
       \<and> SetString (CHR ''0'' # CHR ''X'' # ds) = Some (int (positional 16 ds))"
  using natScan_prefixed [OF assms(2) _ assms(1)]
  by (simp add: SetString_def natScan_def)

lemma SetString_octal_prefixed:
  assumes "ds \<noteq> []" and "\<forall>ch \<in> set ds. digitVal ch < 8"
  shows "SetString (CHR ''0'' # CHR ''o'' # ds) = Some (int (positional 8 ds))
       \<and> SetString (CHR ''0'' # CHR ''O'' # ds) = Some (int (positional 8 ds))"
  using natScan_prefixed [OF assms(2) _ assms(1)]
  by (simp add: SetString_def natScan_def)

lemma SetString_binary:
  assumes "ds \<noteq> []" and "\<forall>ch \<in> set ds. digitVal ch < 2"
  shows "SetString (CHR ''0'' # CHR ''b'' # ds) = Some (int (positional 2 ds))
       \<and> SetString (CHR ''0'' # CHR ''B'' # ds) = Some (int (positional 2 ds))"
  using natScan_prefixed [OF assms(2) _ assms(1)]
  by (simp add: SetString_def natScan_def)

lemma SetString_octal:
  assumes "\<forall>ch \<in> set ds. digitVal ch < 8"
  shows "SetString (CHR ''0'' # ds) = Some (int (positional 8 ds))"
proof (cases ds)
  case Nil
  then show ?thesis by (simp add: SetString_def natScan_def scanEnd_def)
next
  case (Cons ch rest)
  with assms have "digitVal ch < 8" by simp
  then have ch: "ch \<noteq> CHR ''b''" "ch \<noteq> CHR ''B''" "ch \<noteq> CHR ''o''" "ch \<noteq> CHR ''O''"
    "ch \<noteq> CHR ''x''" "ch \<noteq> CHR ''X''"
    using digitVal_special by auto
  have "scanEnd True (scanDigits 8 PrevDigit False 0 0 ds) = (Some (positional 8 ds), [])"
    using assms Cons by (simp add: scanDigits_digits [where b=8] scanEnd_def del: scanDigits.simps positional.simps)
  with ch show ?thesis by (simp add: SetString_def natScan_def Cons)
qed

lemma literalBase_SetString:
  assumes "literalBase s = (b, ds)" and "ds \<noteq> []" and "\<forall>ch \<in> set ds. digitVal ch < b"
  shows "SetString s = Some (int (positional b ds))"
proof (cases s)
  case Nil
  with assms show ?thesis by (simp add: literalBase_def)
next
  case (Cons ch rest)
  note s = Cons
  show ?thesis
  proof (cases "ch = CHR ''0''")
    case False
    have "literalBase s = (10, s)"
      using s False by (simp add: literalBase_def split: list.splits)
    with assms(1) have b: "b = 10" and ds: "ds = s" by simp_all
    have "hd s \<noteq> CHR ''0''" using s False by simp
    with SetString_decimal [of s] assms(2,3) show ?thesis unfolding b ds by blast
  next
    case True
    note ch = True
    show ?thesis
    proof (cases rest)
      case Nil
      have "literalBase s = (10, s)" using s Nil by (simp add: literalBase_def)
      with assms(1) have b: "b = 10" and ds: "ds = s" by simp_all
      show ?thesis unfolding b ds using s Nil ch
        by (simp add: SetString_def natScan_def scanEnd_def digitVal_special)
    next
      case (Cons ch2 tl)
      note rest = Cons
      have s': "s = CHR ''0'' # ch2 # tl" using s rest ch by simp
      consider (bin) "ch2 = CHR ''b'' \<or> ch2 = CHR ''B''"
        | (oct) "ch2 = CHR ''o'' \<or> ch2 = CHR ''O''"
        | (hex) "ch2 = CHR ''x'' \<or> ch2 = CHR ''X''"
        | (plain) "ch2 \<noteq> CHR ''b''" "ch2 \<noteq> CHR ''B''" "ch2 \<noteq> CHR ''o''" "ch2 \<noteq> CHR ''O''"
            "ch2 \<noteq> CHR ''x''" "ch2 \<noteq> CHR ''X''"
        by blast
      then show ?thesis
      proof cases
        case bin
        then have "literalBase s = (2, tl)" unfolding s' literalBase_def by auto
        with assms(1) have b: "b = 2" and ds: "ds = tl" by simp_all
        from SetString_binary [of tl] assms(2,3) bin show ?thesis unfolding b ds s' by blast
      next
        case oct
        then have "literalBase s = (8, tl)" unfolding s' literalBase_def by auto
        with assms(1) have b: "b = 8" and ds: "ds = tl" by simp_all
        from SetString_octal_prefixed [of tl] assms(2,3) oct show ?thesis unfolding b ds s' by blast
      next
        case hex
        then have "literalBase s = (16, tl)" unfolding s' literalBase_def by auto
        with assms(1) have b: "b = 16" and ds: "ds = tl" by simp_all
        from SetString_hex [of tl] assms(2,3) hex show ?thesis unfolding b ds s' by blast
      next
        case plain
        then have "literalBase s = (8, ch2 # tl)" unfolding s' literalBase_def by simp
        with assms(1) have b: "b = 8" and ds: "ds = ch2 # tl" by simp_all
        from SetString_octal [of "ch2 # tl"] assms(3) show ?thesis unfolding b ds s' by blast
      qed
    qed
  qed
qed

lemma wellFormed_SetString:
  assumes "wellFormed s"
  shows "SetString s = Some (literalValue s)"
proof -
  obtain b ds where lb: "literalBase s = (b, ds)" by (cases "literalBase s")
  with assms have "ds \<noteq> []" and "\<forall>ch \<in> set ds. digitVal ch < b"
    by (simp_all add: wellFormed_def list_all_iff)
  from literalBase_SetString [OF lb this] lb show ?thesis by (simp add: literalValue_def)
qed

text \<open>
  Claim C4. Checking a numeric literal parses its text with \<^verbatim>\<open>SetString(s, 0)\<close>: a text
  that the parser refuses is an \<open>InvalidLiteral\<close> error, any other gets type Ideal-Number
  and the parsed value as its constant; and for a well-formed literal in base 2, 8, 10
  or 16 that constant is the literal's value in positional notation.
\<close>

theorem numeric_literal_value:
  "checkExpr c (NumLiteral id1) =
     (case SetString (idMap c id1) of
        None \<Rightarrow> Inl InvalidLiteral
      | Some z \<Rightarrow> Inr (TypeExprIdealNumber, Some z))
   \<and> (wellFormed (idMap c id1) \<longrightarrow>
        checkExpr c (NumLiteral id1) = Inr (TypeExprIdealNumber, Some (literalValue (idMap c id1))))"
  by (simp add: wellFormed_SetString)

theorem numeric_literal_value_witness:
  "wellFormed (idMap exampleChecker 31) \<and> idMap exampleChecker 31 = ''0x1F''
   \<and> checkExpr exampleChecker (NumLiteral 31) = Inr (TypeExprIdealNumber, Some 31)
   \<and> wellFormed (idMap exampleChecker 70000)
   \<and> checkExpr exampleChecker (NumLiteral 70000) = Inr (TypeExprIdealNumber, Some 70000)
   \<and> idMap exampleChecker 99 = ''12a''
   \<and> checkExpr exampleChecker (NumLiteral 99) = Inl InvalidLiteral"
proof -
  have w: "wellFormed (idMap exampleChecker 31)" and t: "idMap exampleChecker 31 = ''0x1F''"
    and v: "literalValue (idMap exampleChecker 31) = 31"
    by (simp_all add: exampleChecker_def exampleText_def wellFormed_def literalValue_def
        literalBase_def digitVal_def)
  have w': "wellFormed (idMap exampleChecker 70000)"
    and v': "literalValue (idMap exampleChecker 70000) = 70000"
    by (simp_all add: exampleChecker_def exampleText_def wellFormed_def literalValue_def
        literalBase_def digitVal_def)
  have t': "idMap exampleChecker 99 = ''12a''" and n: "SetString (idMap exampleChecker 99) = None"
    by (simp_all add: example_defs)
  from numeric_literal_value [of exampleChecker 31] w v
  have "checkExpr exampleChecker (NumLiteral 31) = Inr (TypeExprIdealNumber, Some 31)" by simp
  moreover from numeric_literal_value [of exampleChecker 70000] w' v'
  have "checkExpr exampleChecker (NumLiteral 70000) = Inr (TypeExprIdealNumber, Some 70000)" by simp
  moreover from numeric_literal_value [of exampleChecker 99] n
  have "checkExpr exampleChecker (NumLiteral 99) = Inl InvalidLiteral" by simp
  ultimately show ?thesis using w t w' t' by blast
qed

subsection \<open>Variable declarations\<close>

lemma checkVars_typeMap:
  "checkVars c n = Inr c' \<Longrightarrow>
     idMap c' = idMap c \<and> (\<exists>tm tm'. typeMap c = Some tm \<and> typeMap c' = Some tm' \<and> tm \<subseteq>\<^sub>m tm')
     \<or> c' = c"
  "checkVarsLists c ls = Inr c' \<Longrightarrow>
     idMap c' = idMap c \<and> (\<exists>tm tm'. typeMap c = Some tm \<and> typeMap c' = Some tm' \<and> tm \<subseteq>\<^sub>m tm')
     \<or> c' = c"
  "checkVarsList c l = Inr c' \<Longrightarrow>
     idMap c' = idMap c \<and> (\<exists>tm tm'. typeMap c = Some tm \<and> typeMap c' = Some tm' \<and> tm \<subseteq>\<^sub>m tm')
     \<or> c' = c"
proof (induction c n and c ls and c l arbitrary: c' and c' and c' rule: checkVars_checkVarsLists_checkVarsList.induct)
  case (1 c n)
  show ?case
  proof (cases n)
    case (KVar name xType v)
    with "1.prems" show ?thesis
      by (auto split: if_splits sum.splits option.splits simp: map_le_def)
  qed (use "1" in auto)
next
  case (2 c)
  then show ?case by simp
next
  case (3 c l ls)
  from "3.prems" obtain c1 where a: "checkVarsList c l = Inr c1" and b: "checkVarsLists c1 ls = Inr c'"
    by (auto split: sum.splits)
  from "3.IH"(1) [OF a] "3.IH"(2) [OF a b] show ?case
    by (auto intro: map_le_trans)
next
  case (4 c)
  then show ?case by simp
next
  case (5 c m ms)
  from "5.prems" obtain c1 where a: "checkVars c m = Inr c1" and b: "checkVarsList c1 ms = Inr c'"
    by (auto split: sum.splits)
  from "5.IH"(1) [OF a] "5.IH"(2) [OF a b] show ?case
    by (auto intro: map_le_trans)
qed


lemma checkVars_grows:
  assumes "checkVars c n = Inr c'" and "typeMap c = Some tm"
  shows "\<exists>tm'. typeMap c' = Some tm' \<and> tm \<subseteq>\<^sub>m tm'"
  using checkVars_typeMap(1) [OF assms(1)] assms(2) by auto

lemma checkVarsList_grows:
  assumes "checkVarsList c l = Inr c'" and "typeMap c = Some tm"
  shows "\<exists>tm'. typeMap c' = Some tm' \<and> tm \<subseteq>\<^sub>m tm'"
  using checkVars_typeMap(3) [OF assms(1)] assms(2) by auto

text \<open>
  What \<^verbatim>\<open>checkVars\<close> does at a declaration it visits: a name that already has an entry
  in the scope map fails with \<open>DuplicateDeclaration\<close>, whatever type is declared (the
  one already entered included); a declaration that succeeds found no entry for its
  name and adds exactly that one; and no run of \<^verbatim>\<open>checkVars\<close>, over a node or over a
  body, changes an entry that was there before.
\<close>

lemma duplicate_declaration:
  "(typeMap c = Some tm \<and> tm name = Some declared \<longrightarrow>
      checkVars c (KVar name xType v) = Inl DuplicateDeclaration)
   \<and> (checkVars c (KVar name xType v) = Inr c' \<longrightarrow>
        (\<exists>tm0. typeMap c = Some tm0 \<and> tm0 name = None
           \<and> c' = c\<lparr>typeMap := Some (tm0(name \<mapsto> xType))\<rparr>))
   \<and> (typeMap c = Some tm \<and> (checkVars c n = Inr c'' \<or> checkVarsList c body = Inr c'') \<longrightarrow>
        (\<exists>tm'. typeMap c'' = Some tm' \<and> (\<forall>k t. tm k = Some t \<longrightarrow> tm' k = Some t)))"
proof (intro conjI impI)
  assume "typeMap c = Some tm \<and> tm name = Some declared"
  then show "checkVars c (KVar name xType v) = Inl DuplicateDeclaration" by simp
next
  assume "checkVars c (KVar name xType v) = Inr c'"
  then show "\<exists>tm0. typeMap c = Some tm0 \<and> tm0 name = None
           \<and> c' = c\<lparr>typeMap := Some (tm0(name \<mapsto> xType))\<rparr>"
    by (auto split: if_splits sum.splits option.splits)
next
  assume a: "typeMap c = Some tm \<and> (checkVars c n = Inr c'' \<or> checkVarsList c body = Inr c'')"
  then have "\<exists>tm'. typeMap c'' = Some tm' \<and> tm \<subseteq>\<^sub>m tm'"
    using checkVars_grows [of c n c'' tm] checkVarsList_grows [of c body c'' tm] by blast
  then show "\<exists>tm'. typeMap c'' = Some tm' \<and> (\<forall>k t. tm k = Some t \<longrightarrow> tm' k = Some t)"
    by (auto simp: map_le_def dom_def)
qed

lemma duplicate_declaration_examples:
  "typeMap exampleChecker = Some [10 \<mapsto> u8, 11 \<mapsto> u16, 12 \<mapsto> bool']
   \<and> [10 \<mapsto> u8, 11 \<mapsto> u16, 12 \<mapsto> bool'] (10::ID) = Some u8
   \<and> checkVars exampleChecker (KVar 10 u8 None) = Inl DuplicateDeclaration
   \<and> checkVars exampleChecker (KVar 10 u16 None) = Inl DuplicateDeclaration
   \<and> checkVarsList \<lparr>idMap = exampleText, typeMap = Some Map.empty\<rparr> [KVar 10 u8 None, KVar 10 u16 None]
       = Inl DuplicateDeclaration
   \<and> checkVars exampleChecker (KVar 13 u8 None)
       = Inr (exampleChecker\<lparr>typeMap := Some ([10 \<mapsto> u8, 11 \<mapsto> u16, 12 \<mapsto> bool', 13 \<mapsto> u8])\<rparr>)"
proof -
  have m: "typeMap exampleChecker = Some [10 \<mapsto> u8, 11 \<mapsto> u16, 12 \<mapsto> bool']"
    and k: "[10 \<mapsto> u8, 11 \<mapsto> u16, 12 \<mapsto> bool'] (10::ID) = Some u8"
    by (simp_all add: exampleChecker_def)
  from duplicate_declaration [of exampleChecker _ 10 u8 u8] m k
  have a: "checkVars exampleChecker (KVar 10 u8 None) = Inl DuplicateDeclaration" by blast
  from duplicate_declaration [of exampleChecker _ 10 u8 u16] m k
  have b: "checkVars exampleChecker (KVar 10 u16 None) = Inl DuplicateDeclaration" by blast
  have d: "checkVarsList \<lparr>idMap = exampleText, typeMap = Some Map.empty\<rparr> [KVar 10 u8 None, KVar 10 u16 None]
       = Inl DuplicateDeclaration"
    by (simp add: u8_def u16_def)
  have e: "checkVars exampleChecker (KVar 13 u8 None)
       = Inr (exampleChecker\<lparr>typeMap := Some ([10 \<mapsto> u8, 11 \<mapsto> u16, 12 \<mapsto> bool', 13 \<mapsto> u8])\<rparr>)"
    by (simp add: exampleChecker_def u8_def)
  from m k a b d e show ?thesis by blast
qed

subsection \<open>Conditions\<close>

lemma TypeExpr_Eq_Boolean:
  "TypeExpr_Eq t TypeExprBoolean \<longleftrightarrow> t = TypeExprBoolean \<or> t = TypeNode (TypeName IDBool None None)"
  by (cases t) (auto simp: TypeExpr_Eq_def)

lemma checkIf_conditions:
  assumes "checkIf c (Some i) = Inr ()"
  shows "\<forall>cond \<in> set (conditions i). \<exists>a. checkExpr c cond = Inr a \<and> TypeExpr_Eq (MType a) TypeExprBoolean"
  using assms
proof (induction i rule: conditions.induct)
  case (1 cond bodyIfTrue bodyIfFalse)
  then show ?case by (auto split: sum.splits if_splits)
next
  case (2 cond bodyIfTrue bodyIfFalse elseIf)
  from "2.prems" have "checkIf c (Some elseIf) = Inr ()"
    by (auto split: sum.splits if_splits)
  with "2" show ?case by (auto split: sum.splits if_splits)
qed

text \<open>
  Claim C7. An assert, a while loop with a condition and an if are accepted only if
  the condition, and for an if every condition along its else-if chain, checks to a
  type equal to Boolean (\<^verbatim>\<open>Eq(TypeExprBoolean)\<close>: the Boolean singleton or a declared
  \<open>bool\<close> without bounds). A condition that checks to any other
  type, an Ideal-Number literal for one, is rejected with \<open>NotBoolean\<close>: at an assert,
  at a while, at the head of an if, and at an else-if whose predecessor was accepted.
\<close>

theorem conditions_must_be_boolean:
  "(checkStatement c (KAssert cond) = Inr () \<longrightarrow>
      (\<exists>a. checkExpr c cond = Inr a \<and> TypeExpr_Eq (MType a) TypeExprBoolean))
   \<and> (checkStatement c (KWhile (Some cond) body) = Inr () \<longrightarrow>
      (\<exists>a. checkExpr c cond = Inr a \<and> TypeExpr_Eq (MType a) TypeExprBoolean))
   \<and> (checkStatement c (KIf i) = Inr () \<longrightarrow>
      (\<forall>cond' \<in> set (conditions i).
         \<exists>a. checkExpr c cond' = Inr a \<and> TypeExpr_Eq (MType a) TypeExprBoolean))
   \<and> (checkExpr c cond = Inr a \<and> \<not> TypeExpr_Eq (MType a) TypeExprBoolean \<longrightarrow>
        checkStatement c (KAssert cond) = Inl NotBoolean
      \<and> checkStatement c (KWhile (Some cond) body) = Inl NotBoolean
      \<and> checkStatement c (KIf (IfNode cond bodyIfTrue bodyIfFalse elseIf)) = Inl NotBoolean
      \<and> (checkExpr c cond0 = Inr a0 \<and> TypeExpr_Eq (MType a0) TypeExprBoolean
           \<and> checkStatements c body0 = Inr () \<and> checkStatements c body1 = Inr () \<longrightarrow>
         checkStatement c (KIf (IfNode cond0 body0 body1
            (Some (IfNode cond bodyIfTrue bodyIfFalse elseIf)))) = Inl NotBoolean))"
proof (intro conjI impI)
  assume "checkStatement c (KAssert cond) = Inr ()"
  then show "\<exists>a. checkExpr c cond = Inr a \<and> TypeExpr_Eq (MType a) TypeExprBoolean"
    by (auto split: sum.splits if_splits)
next
  assume "checkStatement c (KWhile (Some cond) body) = Inr ()"
  then show "\<exists>a. checkExpr c cond = Inr a \<and> TypeExpr_Eq (MType a) TypeExprBoolean"
    by (auto split: sum.splits if_splits)
next
  assume "checkStatement c (KIf i) = Inr ()"
  then show "\<forall>cond' \<in> set (conditions i).
         \<exists>a. checkExpr c cond' = Inr a \<and> TypeExpr_Eq (MType a) TypeExprBoolean"
    using checkIf_conditions [of c i] by simp
qed simp_all

theorem conditions_must_be_boolean_witness:
  "checkExpr exampleChecker (NumLiteral 1) = Inr (TypeExprIdealNumber, Some 1)
   \<and> \<not> TypeExpr_Eq TypeExprIdealNumber TypeExprBoolean
   \<and> checkStatement exampleChecker (KIf (IfNode (NumLiteral 1) [] [] None)) = Inl NotBoolean
   \<and> checkStatement exampleChecker (KAssert (NumLiteral 1)) = Inl NotBoolean
   \<and> checkStatement exampleChecker (KWhile (Some (NumLiteral 1)) []) = Inl NotBoolean
   \<and> checkStatement exampleChecker (KIf (IfNode (Ident 12) [] [] (Some (IfNode (NumLiteral 1) [] [] None))))
       = Inl NotBoolean
   \<and> checkStatement exampleChecker (KIf (IfNode (Ident 12) [] [] (Some (IfNode IDTrue [] [] None)))) = Inr ()
   \<and> (\<exists>a. checkExpr exampleChecker (Ident 12) = Inr a \<and> TypeExpr_Eq (MType a) TypeExprBoolean)"
proof -
  have l: "checkExpr exampleChecker (NumLiteral 1) = Inr (TypeExprIdealNumber, Some 1)"
    by (simp add: example_defs)
  have n: "\<not> TypeExpr_Eq TypeExprIdealNumber TypeExprBoolean"
    by (simp add: TypeExpr_Eq_def)
  have b: "checkExpr exampleChecker (Ident 12) = Inr (TypeNode bool', None)"
    and e: "TypeExpr_Eq (TypeNode bool') TypeExprBoolean"
    by (simp_all add: example_defs TypeExpr_Eq_def)
  note t = conditions_must_be_boolean [of exampleChecker "NumLiteral 1" "[]" _
      "(TypeExprIdealNumber, Some 1)" "[]" "[]" None "Ident 12" "(TypeNode bool', None)" "[]" "[]"]
  from t l n b e
  have r: "checkStatement exampleChecker (KIf (IfNode (NumLiteral 1) [] [] None)) = Inl NotBoolean
     \<and> checkStatement exampleChecker (KAssert (NumLiteral 1)) = Inl NotBoolean
     \<and> checkStatement exampleChecker (KWhile (Some (NumLiteral 1)) []) = Inl NotBoolean
     \<and> checkStatement exampleChecker (KIf (IfNode (Ident 12) [] [] (Some (IfNode (NumLiteral 1) [] [] None))))
         = Inl NotBoolean"
    by simp
  have s: "checkStatement exampleChecker (KIf (IfNode (Ident 12) [] [] (Some (IfNode IDTrue [] [] None)))) = Inr ()"
    by (simp add: example_defs TypeExpr_Eq_def)
  from conditions_must_be_boolean
    [of exampleChecker _ _ "IfNode (Ident 12) [] [] (Some (IfNode IDTrue [] [] None))"] s
  have "\<exists>a. checkExpr exampleChecker (Ident 12) = Inr a \<and> TypeExpr_Eq (MType a) TypeExprBoolean"
    by simp
  with l n r s show ?thesis by blast
qed

subsection \<open>Type expressions\<close>

lemma checkBound_Inr:
  assumes "checkBound c (Some b) = Inr u"
  shows "\<exists>ty v. checkExpr c b = Inr (ty, Some v)"
  using assms by (auto split: sum.splits if_splits)

lemma checkTypeExpr_constExprs:
  assumes "checkTypeExpr c t = Inr ()"
  shows "\<forall>e \<in> set (constExprs t). \<exists>ty v. checkExpr c e = Inr (ty, Some v)"
  using assms
proof (induction t rule: constExprs.induct)
  case (1 name inclMin exclMax)
  then show ?case
    by (auto split: sum.splits if_splits option.splits dest: checkBound_Inr)
next
  case (3 aLen inner)
  then show ?case by (auto split: sum.splits if_splits)
qed simp_all

text \<open>
  Claim C8. A type expression is accepted only if every array length along its chain
  and every bound of its numeric or Boolean terminal name checks and has a constant
  value. A bound or a length that checks without a constant value fails with
  \<open>NotConstant\<close>, one that does not check fails with its own error; a pointer decorator
  adds no check of its own; a terminal name that is neither numeric nor Boolean fails
  with \<open>NotAType\<close>.
\<close>

theorem type_expression_constants:
  "(checkTypeExpr c t = Inr () \<longrightarrow>
      (\<forall>e \<in> set (constExprs t). \<exists>ty v. checkExpr c e = Inr (ty, Some v)))
   \<and> (ID_IsNumType name \<or> name = IDBool \<longrightarrow>
        (checkExpr c bound = Inr (ty, None) \<longrightarrow>
           checkTypeExpr c (TypeName name (Some bound) exclMax) = Inl NotConstant
         \<and> checkTypeExpr c (TypeName name None (Some bound)) = Inl NotConstant
         \<and> (checkExpr c bound0 = Inr (ty0, Some v0) \<longrightarrow>
              checkTypeExpr c (TypeName name (Some bound0) (Some bound)) = Inl NotConstant))
      \<and> (checkExpr c bound = Inl err \<longrightarrow>
           checkTypeExpr c (TypeName name (Some bound) exclMax) = Inl err
         \<and> checkTypeExpr c (TypeName name None (Some bound)) = Inl err))
   \<and> (checkExpr c aLen = Inr (ty, None) \<longrightarrow> checkTypeExpr c (TypeArray aLen inner) = Inl NotConstant)
   \<and> (checkExpr c aLen = Inl err \<longrightarrow> checkTypeExpr c (TypeArray aLen inner) = Inl err)
   \<and> (checkExpr c aLen = Inr (ty, Some v) \<longrightarrow>
        checkTypeExpr c (TypeArray aLen inner) = checkTypeExpr c inner)
   \<and> checkTypeExpr c (TypePtr inner) = checkTypeExpr c inner
   \<and> (\<not> ID_IsNumType name \<and> name \<noteq> IDBool \<longrightarrow>
        checkTypeExpr c (TypeName name inclMin exclMax) = Inl NotAType)"
proof -
  have "checkTypeExpr c t = Inr () \<longrightarrow>
      (\<forall>e \<in> set (constExprs t). \<exists>ty v. checkExpr c e = Inr (ty, Some v))"
    using checkTypeExpr_constExprs [of c t] by blast
  then show ?thesis by simp
qed

theorem type_expression_constants_witness:
  "checkExpr exampleChecker (Ident 10) = Inr (TypeNode u8, None)
   \<and> checkTypeExpr exampleChecker (TypeArray (Ident 10) u8) = Inl NotConstant
   \<and> checkTypeExpr exampleChecker (TypeName (IDNumType 8) None (Some (Ident 10))) = Inl NotConstant
   \<and> checkTypeExpr exampleChecker (TypeName (IDOtherName 5) None None) = Inl NotAType
   \<and> checkTypeExpr exampleChecker (TypePtr (TypeArray (NumLiteral 3) u8)) = Inr ()
   \<and> (\<exists>ty v. checkExpr exampleChecker (NumLiteral 3) = Inr (ty, Some v))"
proof -
  have x: "checkExpr exampleChecker (Ident 10) = Inr (TypeNode u8, None)"
    by (simp add: example_defs)
  note t = type_expression_constants [of exampleChecker _ "IDNumType 8" "Ident 10" "TypeNode u8" _ _ _ _ _
      "Ident 10" u8]
  from t x have a: "checkTypeExpr exampleChecker (TypeArray (Ident 10) u8) = Inl NotConstant
     \<and> checkTypeExpr exampleChecker (TypeName (IDNumType 8) None (Some (Ident 10))) = Inl NotConstant"
    by simp
  from type_expression_constants [of exampleChecker _ "IDOtherName 5"]
  have b: "checkTypeExpr exampleChecker (TypeName (IDOtherName 5) None None) = Inl NotAType"
    by simp
  have s: "checkTypeExpr exampleChecker (TypePtr (TypeArray (NumLiteral 3) u8)) = Inr ()"
    by (simp add: example_defs)
  from type_expression_constants [of exampleChecker "TypePtr (TypeArray (NumLiteral 3) u8)"] s
  have "\<exists>ty v. checkExpr exampleChecker (NumLiteral 3) = Inr (ty, Some v)"
    by simp
  with x a b s show ?thesis by blast
qed

subsection \<open>Declarations below an else-if\<close>

text \<open>
  What does hold: when \<^verbatim>\<open>checkVars\<close> succeeds, every declaration it reaches through
  sub-lists, at any depth, is in the resulting scope map under a name that was not
  there before and that no other reached declaration has; an identifier of that name
  then checks to the declared type.
\<close>

lemma hoisted_Nil: "hoisted tm [] tm"
  by (simp add: hoisted_def)

lemma hoisted_append:
  assumes "hoisted tm ds1 tm1" and "hoisted tm1 ds2 tm'"
  shows "hoisted tm (ds1 @ ds2) tm'"
proof -
  from assms have d: "distinct (map fst ds1)" "distinct (map fst ds2)"
    and i1: "fst ` set ds1 \<inter> dom tm = {}" and i2: "fst ` set ds2 \<inter> dom tm1 = {}"
    and m1: "dom tm1 = dom tm \<union> fst ` set ds1" and m2: "dom tm' = dom tm1 \<union> fst ` set ds2"
    and l1: "tm \<subseteq>\<^sub>m tm1" and l2: "tm1 \<subseteq>\<^sub>m tm'"
    and a1: "\<forall>(k, t) \<in> set ds1. tm1 k = Some t" and a2: "\<forall>(k, t) \<in> set ds2. tm' k = Some t"
    by (simp_all add: hoisted_def list_all_iff)
  have "fst ` set ds1 \<inter> fst ` set ds2 = {}" using i2 m1 by blast
  with d have "distinct (map fst (ds1 @ ds2))" by simp
  moreover have "fst ` set (ds1 @ ds2) \<inter> dom tm = {}" using i1 i2 m1 by auto
  moreover have "dom tm' = dom tm \<union> fst ` set (ds1 @ ds2)" using m1 m2 by auto
  moreover have "tm \<subseteq>\<^sub>m tm'" using l1 l2 by (rule map_le_trans)
  moreover have "\<forall>(k, t) \<in> set ds1. tm' k = Some t"
  proof clarify
    fix k t assume "(k, t) \<in> set ds1"
    with a1 have "tm1 k = Some t" by auto
    with l2 show "tm' k = Some t" by (auto simp: map_le_def dom_def)
  qed
  ultimately show ?thesis using a2 by (auto simp: hoisted_def list_all_iff)
qed

lemma checkVars_hoisted:
  "checkVars c n = Inr c' \<Longrightarrow> typeMap c = Some tm \<Longrightarrow>
     \<exists>tm'. typeMap c' = Some tm' \<and> hoisted tm (declarations n) tm'"
  "checkVarsLists c ls = Inr c' \<Longrightarrow> typeMap c = Some tm \<Longrightarrow>
     \<exists>tm'. typeMap c' = Some tm' \<and> hoisted tm (concat (map (\<lambda>l. concat (map declarations l)) ls)) tm'"
  "checkVarsList c l = Inr c' \<Longrightarrow> typeMap c = Some tm \<Longrightarrow>
     \<exists>tm'. typeMap c' = Some tm' \<and> hoisted tm (concat (map declarations l)) tm'"
proof (induction c n and c ls and c l arbitrary: c' tm and c' tm and c' tm
    rule: checkVars_checkVarsLists_checkVarsList.induct)
  case (1 c n)
  show ?case
  proof (cases n)
    case (KVar name xType v)
    with "1.prems" show ?thesis
      by (auto split: if_splits sum.splits option.splits simp: hoisted_def map_le_def)
  next
    case (KIf i)
    obtain cond t f e where i: "i = IfNode cond t f e" by (cases i)
    from "1.prems" KIf have "checkVarsLists c (SubLists n) = Inr c'" by simp
    from "1.IH"(4) [OF KIf this "1.prems"(2)] KIf i show ?thesis by simp
  next
    case (KWhile cond body)
    from "1.prems" KWhile have "checkVarsLists c (SubLists n) = Inr c'" by simp
    from "1.IH"(3) [OF KWhile this "1.prems"(2)] KWhile show ?thesis by simp
  qed (use "1.prems" in \<open>auto simp: hoisted_Nil\<close>)
next
  case (2 c)
  then show ?case by (simp add: hoisted_Nil)
next
  case (3 c l ls)
  from "3.prems" obtain c1 where a: "checkVarsList c l = Inr c1" and b: "checkVarsLists c1 ls = Inr c'"
    by (auto split: sum.splits)
  from "3.IH"(1) [OF a "3.prems"(2)] obtain tm1 where t1: "typeMap c1 = Some tm1"
    and h1: "hoisted tm (concat (map declarations l)) tm1" by blast
  from "3.IH"(2) [OF a b t1] obtain tm' where t': "typeMap c' = Some tm'"
    and h2: "hoisted tm1 (concat (map (\<lambda>l. concat (map declarations l)) ls)) tm'" by blast
  from hoisted_append [OF h1 h2] t' show ?case by simp
next
  case (4 c)
  then show ?case by (simp add: hoisted_Nil)
next
  case (5 c m ms)
  from "5.prems" obtain c1 where a: "checkVars c m = Inr c1" and b: "checkVarsList c1 ms = Inr c'"
    by (auto split: sum.splits)
  from "5.IH"(1) [OF a "5.prems"(2)] obtain tm1 where t1: "typeMap c1 = Some tm1"
    and h1: "hoisted tm (declarations m) tm1" by blast
  from "5.IH"(2) [OF a b t1] obtain tm' where t': "typeMap c' = Some tm'"
    and h2: "hoisted tm1 (concat (map declarations ms)) tm'" by blast
  from hoisted_append [OF h1 h2] t' show ?case by simp
qed


lemma declared_identifier_visible:
  assumes "checkVarsList c body = Inr c'" and "typeMap c = Some tm"
    and "(name, xType) \<in> set (concat (map declarations body))"
  shows "checkExpr c' (Ident name) = Inr (TypeNode xType, None)"
proof -
  from checkVars_hoisted(3) [OF assms(1,2)] obtain tm' where t: "typeMap c' = Some tm'"
    and h: "hoisted tm (concat (map declarations body)) tm'" by blast
  from h have "\<forall>(k, t) \<in> set (concat (map declarations body)). tm' k = Some t"
    by (simp add: hoisted_def list_all_iff)
  with assms(3) have "tm' name = Some xType" by blast
  with t show ?thesis by simp
qed


text \<open>
  Claim C9 at a concrete function body. \<^verbatim>\<open>checkVars\<close> follows the sub-lists of a node,
  and the \<^verbatim>\<open>ElseIf\<close> of an if is not one of them: a declaration in the body of an
  else-if leaves the scope map as it was, so a use of the variable right after it is an
  unbound identifier and a second declaration of a name of the function is not a
  duplicate, while the same statements in the first branch of the if are collected.
\<close>

theorem else_if_declaration_not_hoisted:
  "checkVarsList \<lparr>idMap = exampleText, typeMap = Some Map.empty\<rparr>
      [KIf (IfNode IDTrue [] [] (Some (IfNode IDTrue [KVar 10 u8 None] [] None)))]
     = Inr \<lparr>idMap = exampleText, typeMap = Some Map.empty\<rparr>
   \<and> checkFuncBody exampleText
      [KIf (IfNode IDTrue [] []
         (Some (IfNode IDTrue [KVar 10 u8 None, KAssign IDEq (Ident 10) (NumLiteral 1)] [] None)))]
     = Inl UnboundIdentifier
   \<and> checkFuncBody exampleText
      [KIf (IfNode IDTrue [KVar 10 u8 None, KAssign IDEq (Ident 10) (NumLiteral 1)] [] None)]
     = Inr ()
   \<and> checkFuncBody exampleText
      [KVar 10 u8 None, KIf (IfNode IDTrue [] [] (Some (IfNode IDTrue [KVar 10 u16 None] [] None)))]
     = Inr ()
   \<and> checkFuncBody exampleText
      [KVar 10 u8 None, KIf (IfNode IDTrue [KVar 10 u16 None] [] None)]
     = Inl DuplicateDeclaration"
  by (simp add: checkFuncBody_def checkAssign_def TypeExpr_Eq_def EqIgnoringRefinements_def
      example_defs)

text \<open>
  Claim C6 at a concrete function body. A declaration whose name already has an entry
  in the scope map of the function is rejected with \<open>DuplicateDeclaration\<close> only where
  \<^verbatim>\<open>checkVars\<close> visits it. In the body of an else-if it is not visited:
  \<open>var x : u8\<close> followed by an if whose else-if declares \<open>x\<close> again, with another type
  or with the same one, is accepted, while the same declaration in the first branch of
  the if, or right after the first one, is a duplicate.
\<close>

theorem else_if_duplicate_not_rejected:
  "checkFuncBody exampleText
      [KVar 10 u8 None, KIf (IfNode IDTrue [] [] (Some (IfNode IDTrue [KVar 10 u16 None] [] None)))]
     = Inr ()
   \<and> checkFuncBody exampleText
      [KVar 10 u8 None, KIf (IfNode IDTrue [] [] (Some (IfNode IDTrue [KVar 10 u8 None] [] None)))]
     = Inr ()
   \<and> checkFuncBody exampleText
      [KVar 10 u8 None, KIf (IfNode IDTrue [KVar 10 u16 None] [] None)]
     = Inl DuplicateDeclaration
   \<and> checkFuncBody exampleText [KVar 10 u8 None, KVar 10 u16 None] = Inl DuplicateDeclaration"
  by (simp add: checkFuncBody_def TypeExpr_Eq_def example_defs)


subsection \<open>Division by a constant zero\<close>

lemma reaches_propagates:
  "reachesExpr c outer e \<Longrightarrow> checkExpr c e = Inl err \<Longrightarrow> checkExpr c outer = Inl err"
  "reachesTypeExpr c t e \<Longrightarrow> checkExpr c e = Inl err \<Longrightarrow> checkTypeExpr c t = Inl err"
  "reachesBound c b e \<Longrightarrow> checkExpr c e = Inl err \<Longrightarrow> checkBound c b = Inl err"
  by (induction c outer e and c t e and c b e rule: reachesExpr_reachesTypeExpr_reachesBound.induct)
    (auto split: sum.splits)

lemma reachesStatement_propagates:
  "reachesStatement c n e \<Longrightarrow> checkExpr c e = Inl err \<Longrightarrow> checkStatement c n = Inl err"
  "reachesStatements c ns e \<Longrightarrow> checkExpr c e = Inl err \<Longrightarrow> checkStatements c ns = Inl err"
  "reachesIf c i e \<Longrightarrow> checkExpr c e = Inl err \<Longrightarrow> checkIf c i = Inl err"
  by (induction c n e and c ns e and c i e rule: reachesStatement_reachesStatements_reachesIf.induct)
    (auto simp: checkAssign_def dest: reaches_propagates(1) split: sum.splits if_splits)

lemma checkVars_idMap:
  "checkVars c n = Inr c' \<Longrightarrow> idMap c' = idMap c"
  "checkVarsLists c ls = Inr c' \<Longrightarrow> idMap c' = idMap c"
  "checkVarsList c l = Inr c' \<Longrightarrow> idMap c' = idMap c"
  using checkVars_typeMap [of c _ c'] by auto

lemma reachesVars_propagates:
  "reachesVars c n e \<Longrightarrow> \<forall>c0. idMap c0 = idMap c \<longrightarrow> checkExpr c0 e = Inl err \<Longrightarrow>
     checkVars c n = Inl err"
  "reachesVarsLists c ls e \<Longrightarrow> \<forall>c0. idMap c0 = idMap c \<longrightarrow> checkExpr c0 e = Inl err \<Longrightarrow>
     checkVarsLists c ls = Inl err"
  "reachesVarsList c l e \<Longrightarrow> \<forall>c0. idMap c0 = idMap c \<longrightarrow> checkExpr c0 e = Inl err \<Longrightarrow>
     checkVarsList c l = Inl err"
proof (induction c n e and c ls e and c l e rule: reachesVars_reachesVarsLists_reachesVarsList.induct)
  case (1 c n e)
  show ?case
  proof (cases n)
    case (KVar name xType v)
    with "1.prems" have "reachesTypeExpr c xType e" and "checkExpr c e = Inl err"
      and "\<not> (case typeMap c of None \<Rightarrow> False | Some tm \<Rightarrow> tm name \<noteq> None)"
      by simp_all
    with reaches_propagates(2) [of c xType e err] KVar show ?thesis by simp
  qed (use "1" in auto)
next
  case (3 c l ls e)
  show ?case
  proof (cases "reachesVarsList c l e")
    case True
    with "3.IH"(1) "3.prems"(2) show ?thesis by simp
  next
    case False
    with "3.prems"(1) obtain c' where a: "checkVarsList c l = Inr c'" and b: "reachesVarsLists c' ls e"
      by (auto split: sum.splits)
    from checkVars_idMap(3) [OF a] "3.prems"(2)
    have "\<forall>c0. idMap c0 = idMap c' \<longrightarrow> checkExpr c0 e = Inl err" by simp
    with "3.IH"(2) [OF a b] a show ?thesis by simp
  qed
next
  case (5 c m ms e)
  show ?case
  proof (cases "reachesVars c m e")
    case True
    with "5.IH"(1) "5.prems"(2) show ?thesis by simp
  next
    case False
    with "5.prems"(1) obtain c' where a: "checkVars c m = Inr c'" and b: "reachesVarsList c' ms e"
      by (auto split: sum.splits)
    from checkVars_idMap(1) [OF a] "5.prems"(2)
    have "\<forall>c0. idMap c0 = idMap c' \<longrightarrow> checkExpr c0 e = Inl err" by simp
    with "5.IH"(2) [OF a b] a show ?thesis by simp
  qed
qed simp_all


lemma const_state_independent_aux:
  assumes i: "idMap c' = idMap c"
  shows "\<forall>ty v. checkExpr c e = Inr (ty, Some v) \<longrightarrow> checkExpr c' e = Inr (ty, Some v)"
    and "checkTypeExpr c t = checkTypeExpr c t"
    and "checkBound c b = checkBound c b"
  using i
proof (induction c e and c t and c b rule: checkExpr_checkTypeExpr_checkBound.induct)
  case (1 c id1)
  then show ?case by simp
next
  case (2 c id1)
  show ?case by (simp split: option.splits)
next
  case (13 c op rhs)
  show ?case
  proof (intro allI impI)
    fix ty v assume a: "checkExpr c (UnaryOp op rhs) = Inr (ty, Some v)"
    then obtain rt rc where r: "checkExpr c rhs = Inr (rt, rc)"
      and u: "checkExprUnaryOp op (rt, rc) = Inr (ty, Some v)"
      by (auto split: sum.splits)
    from checkExprUnaryOp_const [OF u] obtain rv where "rc = Some rv" by auto
    with "13.IH" [OF "13.prems"] r have "checkExpr c' rhs = Inr (rt, rc)" by blast
    with u show "checkExpr c' (UnaryOp op rhs) = Inr (ty, Some v)" by simp
  qed
next
  case (14 c op lhs rhs)
  show ?case
  proof (intro allI impI)
    fix ty v assume a: "checkExpr c (BinaryOp op lhs rhs) = Inr (ty, Some v)"
    then obtain lt lc rt rc where l: "checkExpr c lhs = Inr (lt, lc)" and r: "checkExpr c rhs = Inr (rt, rc)"
      and u: "checkExprBinaryOp op (lt, lc) (rt, rc) = Inr (ty, Some v)"
      by (auto split: sum.splits)
    from setConstValueBinaryOp_type [OF u] obtain lv rv where lc: "lc = Some lv" and rc: "rc = Some rv" by auto
    from "14.IH"(1) [OF "14.prems"] l lc have l': "checkExpr c' lhs = Inr (lt, lc)" by blast
    from "14.IH"(2) [OF l "14.prems"] r rc have "checkExpr c' rhs = Inr (rt, rc)" by blast
    with l' u show "checkExpr c' (BinaryOp op lhs rhs) = Inr (ty, Some v)" by simp
  qed
next
  case (15 c lhs rhs)
  show ?case by (simp split: sum.splits)
qed simp_all

lemma const_state_independent:
  assumes "checkExpr c e = Inr (ty, Some v)" and "idMap c' = idMap c"
  shows "checkExpr c' e = Inr (ty, Some v)"
  using const_state_independent_aux(1) [OF assms(2), of e] assms(1) by blast


lemma constant_division_fails:
  assumes "checkExpr c lhs = Inr (lt, Some l)" and "checkExpr c rhs = Inr (rt, Some 0)"
    and "numeric lt" and "numeric rt" and "idMap c0 = idMap c"
  shows "checkExpr c0 (BinaryOp IDXBinarySlash lhs rhs) = Inl DivisionByZero"
proof -
  have lt: "lt = TypeExprIdealNumber" and rt: "rt = TypeExprIdealNumber"
    using assms(1-4) by (auto dest: const_numeric_is_ideal)
  have "checkExpr c0 lhs = Inr (lt, Some l)" and "checkExpr c0 rhs = Inr (rt, Some 0)"
    using assms(1,2,5) by (auto intro: const_state_independent)
  then show ?thesis by (simp add: lt rt checkExprBinaryOp_ideal_consts)
qed

text \<open>
  Claim C1, as amended. A division whose two operands both check as numeric constants
  and whose divisor is the constant zero fails with \<open>DivisionByZero\<close>, and so does
  every check that reaches it: of an enclosing expression, of a type expression that
  holds it in an array length or a refinement bound, of a statement, of a variable
  declaration in \<^verbatim>\<open>checkVars\<close>, of a function body. (The claim as stated, for every
  division by a constant zero whatever the operands and wherever it stands, does not
  hold: \<^verbatim>\<open>setConstValueBinaryOp\<close> runs only when both operands are constants and after
  the checks of the operand types, and a check that fails before it gets to the
  division returns that earlier error.)
\<close>

theorem constant_division_by_zero:
  assumes "checkExpr c lhs = Inr (lt, Some l)" and "checkExpr c rhs = Inr (rt, Some 0)"
    and "numeric lt" and "numeric rt"
  shows "checkExpr c (BinaryOp IDXBinarySlash lhs rhs) = Inl DivisionByZero
       \<and> (reachesExpr c outer (BinaryOp IDXBinarySlash lhs rhs) \<longrightarrow>
            checkExpr c outer = Inl DivisionByZero)
       \<and> (reachesTypeExpr c t (BinaryOp IDXBinarySlash lhs rhs) \<longrightarrow>
            checkTypeExpr c t = Inl DivisionByZero)
       \<and> (reachesStatement c s (BinaryOp IDXBinarySlash lhs rhs) \<longrightarrow>
            checkStatement c s = Inl DivisionByZero)
       \<and> (reachesVars c n (BinaryOp IDXBinarySlash lhs rhs) \<longrightarrow>
            checkVars c n = Inl DivisionByZero)
       \<and> (reachesFuncBody (idMap c) body (BinaryOp IDXBinarySlash lhs rhs) \<longrightarrow>
            checkFuncBody (idMap c) body = Inl DivisionByZero)"
proof -
  let ?d = "BinaryOp IDXBinarySlash lhs rhs"
  have every: "\<forall>c0. idMap c0 = idMap c \<longrightarrow> checkExpr c0 ?d = Inl DivisionByZero"
    using constant_division_fails [OF assms] by blast
  then have here: "checkExpr c ?d = Inl DivisionByZero" by blast
  have body: "checkFuncBody (idMap c) body = Inl DivisionByZero"
    if r: "reachesFuncBody (idMap c) body ?d"
  proof -
    let ?c0 = "\<lparr>idMap = idMap c, typeMap = Some Map.empty\<rparr>"
    have every0: "\<forall>c1. idMap c1 = idMap ?c0 \<longrightarrow> checkExpr c1 ?d = Inl DivisionByZero"
      using every by simp
    show ?thesis
    proof (cases "reachesVarsList ?c0 body ?d")
      case True
      from reachesVars_propagates(3) [OF True every0] show ?thesis
        by (simp add: checkFuncBody_def)
    next
      case False
      with r obtain cf where a: "checkVarsList ?c0 body = Inr cf" and b: "reachesStatements cf body ?d"
        by (auto simp: reachesFuncBody_def split: sum.splits)
      from checkVars_idMap(3) [OF a] every have "checkExpr cf ?d = Inl DivisionByZero" by simp
      from reachesStatement_propagates(2) [OF b this] a show ?thesis
        by (simp add: checkFuncBody_def)
    qed
  qed
  from here every body show ?thesis
    using reaches_propagates(1) [of c outer ?d DivisionByZero]
      reaches_propagates(2) [of c t ?d DivisionByZero]
      reachesStatement_propagates(1) [of c s ?d DivisionByZero]
      reachesVars_propagates(1) [of c n ?d DivisionByZero]
    by blast
qed

theorem constant_division_by_zero_witness:
  "checkExpr exampleChecker (NumLiteral 7) = Inr (TypeExprIdealNumber, Some 7)
   \<and> checkExpr exampleChecker (NumLiteral 0) = Inr (TypeExprIdealNumber, Some 0)
   \<and> numeric TypeExprIdealNumber
   \<and> checkExpr exampleChecker sevenByZero = Inl DivisionByZero
   \<and> checkExpr exampleChecker (BinaryOp IDXBinaryPlus (Ident 10) sevenByZero) = Inl DivisionByZero
   \<and> checkExpr exampleChecker (BinaryAs sevenByZero u8) = Inl DivisionByZero
   \<and> checkExpr exampleChecker
        (UnaryOp IDXUnaryMinus (BinaryOp IDXBinaryStar (NumLiteral 2)
           (BinaryOp IDXBinaryPlus (NumLiteral 1) sevenByZero))) = Inl DivisionByZero
   \<and> checkTypeExpr exampleChecker (TypeName (IDNumType 8) (Some (NumLiteral 0)) (Some sevenByZero))
       = Inl DivisionByZero
   \<and> checkTypeExpr exampleChecker (TypePtr (TypeArray (NumLiteral 3) (TypeArray sevenByZero u8)))
       = Inl DivisionByZero
   \<and> checkStatement exampleChecker
        (KWhile (Some IDTrue) [KBreak, KAssign IDEq (Ident 10) sevenByZero]) = Inl DivisionByZero
   \<and> checkStatement exampleChecker
        (KIf (IfNode IDTrue [] [] (Some (IfNode IDFalse [KReturn (Some sevenByZero)] [] None))))
       = Inl DivisionByZero
   \<and> checkVars exampleChecker
        (KWhile None [KVar 13 (TypeName (IDNumType 8) (Some (NumLiteral 0)) (Some sevenByZero)) None])
       = Inl DivisionByZero
   \<and> checkFuncBody (idMap exampleChecker)
        [KVar 10 u8 None, KAssert (BinaryOp IDXBinaryEqEq (Ident 10) sevenByZero)]
       = Inl DivisionByZero"
proof -
  have n: "numeric TypeExprIdealNumber" by (simp add: numeric_def)
  have l: "checkExpr exampleChecker (NumLiteral 7) = Inr (TypeExprIdealNumber, Some 7)"
    by (simp add: example_defs)
  have r: "checkExpr exampleChecker (NumLiteral 0) = Inr (TypeExprIdealNumber, Some 0)"
    by (simp add: example_defs)
  note t = constant_division_by_zero [OF l r n n]
  have a0: "checkExpr exampleChecker sevenByZero = Inl DivisionByZero"
    using t by (simp add: sevenByZero_def)
  have a1: "checkExpr exampleChecker (BinaryOp IDXBinaryPlus (Ident 10) sevenByZero) = Inl DivisionByZero"
    using t [of "BinaryOp IDXBinaryPlus (Ident 10) sevenByZero"] by (simp add: reach_defs)
  have a2: "checkExpr exampleChecker (BinaryAs sevenByZero u8) = Inl DivisionByZero"
    using t [of "BinaryAs sevenByZero u8"] by (simp add: reach_defs)
  have a3: "checkExpr exampleChecker
        (UnaryOp IDXUnaryMinus (BinaryOp IDXBinaryStar (NumLiteral 2)
           (BinaryOp IDXBinaryPlus (NumLiteral 1) sevenByZero))) = Inl DivisionByZero"
    using t [of "UnaryOp IDXUnaryMinus (BinaryOp IDXBinaryStar (NumLiteral 2)
           (BinaryOp IDXBinaryPlus (NumLiteral 1) sevenByZero))"]
    by (simp add: reach_defs)
  have b1: "checkTypeExpr exampleChecker (TypeName (IDNumType 8) (Some (NumLiteral 0)) (Some sevenByZero))
       = Inl DivisionByZero"
    using t [of _ "TypeName (IDNumType 8) (Some (NumLiteral 0)) (Some sevenByZero)"]
    by (simp add: reach_defs)
  have b2: "checkTypeExpr exampleChecker (TypePtr (TypeArray (NumLiteral 3) (TypeArray sevenByZero u8)))
       = Inl DivisionByZero"
    using t [of _ "TypePtr (TypeArray (NumLiteral 3) (TypeArray sevenByZero u8))"]
    by (simp add: reach_defs)
  have s1: "checkStatement exampleChecker
        (KWhile (Some IDTrue) [KBreak, KAssign IDEq (Ident 10) sevenByZero]) = Inl DivisionByZero"
    using t [of _ _ "KWhile (Some IDTrue) [KBreak, KAssign IDEq (Ident 10) sevenByZero]"]
    by (simp add: reach_defs checkAssign_def)
  have s2: "checkStatement exampleChecker
        (KIf (IfNode IDTrue [] [] (Some (IfNode IDFalse [KReturn (Some sevenByZero)] [] None))))
       = Inl DivisionByZero"
    using t [of _ _ "KIf (IfNode IDTrue [] [] (Some (IfNode IDFalse [KReturn (Some sevenByZero)] [] None)))"]
    by (simp add: reach_defs)
  have v1: "checkVars exampleChecker
        (KWhile None [KVar 13 (TypeName (IDNumType 8) (Some (NumLiteral 0)) (Some sevenByZero)) None])
       = Inl DivisionByZero"
    using t [of _ _ _ "KWhile None [KVar 13 (TypeName (IDNumType 8) (Some (NumLiteral 0)) (Some sevenByZero)) None]"]
    by (simp add: reach_defs)
  have f1: "checkFuncBody (idMap exampleChecker)
        [KVar 10 u8 None, KAssert (BinaryOp IDXBinaryEqEq (Ident 10) sevenByZero)]
       = Inl DivisionByZero"
    using t [of _ _ _ _ "[KVar 10 u8 None, KAssert (BinaryOp IDXBinaryEqEq (Ident 10) sevenByZero)]"]
    by (simp add: reachesFuncBody_def checkFuncBody_def reach_defs)
  from n l r a0 a1 a2 a3 b1 b2 s1 s2 v1 f1 show ?thesis by blast
qed

theorem division_by_constant_zero_counterexample:
  "checkExpr exampleChecker (NumLiteral 0) = Inr (TypeExprIdealNumber, Some 0)
   \<and> checkExpr exampleChecker (BinaryOp IDXBinarySlash (Ident 10) (NumLiteral 0)) = Inr (TypeNode u8, None)
   \<and> checkExpr exampleChecker (BinaryOp IDXBinarySlash IDTrue (NumLiteral 0)) = Inl NotNumeric
   \<and> checkExpr exampleChecker (BinaryOp IDXBinaryPlus IDUnderscore sevenByZero) = Inl UnsupportedConstruct
   \<and> checkTypeExpr exampleChecker (TypeName (IDNumType 8) (Some (Ident 10)) (Some sevenByZero))
       = Inl NotConstant
   \<and> checkTypeExpr exampleChecker (TypeName (IDOtherName 5) (Some sevenByZero) None) = Inl NotAType"
  by (simp add: reach_defs)

end
